theory Spec2Isabelle
  imports Complex_Main
begin

section \<open>Text primitives of the host language\<close>

text \<open>
  Text is a list of characters with code points below 256. The functions of this section
  model the Python string methods that \<^verbatim>\<open>main.py\<close> calls: \<^verbatim>\<open>str.strip\<close>,
  \<^verbatim>\<open>str.join\<close>, \<^verbatim>\<open>str.title\<close>, \<^verbatim>\<open>str(int)\<close>, \<^verbatim>\<open>str.format\<close> with
  keyword arguments, and \<^verbatim>\<open>re.findall\<close> for the one pattern the program uses.
\<close>

datatype py_exception =
    KeyError string
  | ValueError string
  | UnboundLocalError string
  | ExternalError string
  | PyException string

text \<open>\<^verbatim>\<open>str.isspace\<close> on one character: TAB, LF, VT, FF, CR, FS, GS, RS, US, space,
  NEL and NBSP.\<close>

definition isspace :: "char \<Rightarrow> bool" where
  "isspace c \<longleftrightarrow> (of_char c :: nat) \<in> {9..13} \<union> {28..32} \<union> {133, 160}"

definition strip :: "string \<Rightarrow> string" where
  "strip s = rev (dropWhile isspace (rev (dropWhile isspace s)))"

text \<open>\<^verbatim>\<open>sep.join(xs)\<close>.\<close>

fun join :: "string \<Rightarrow> string list \<Rightarrow> string" where
  "join sep [] = []"
| "join sep [x] = x"
| "join sep (x # y # ys) = x @ sep @ join sep (y # ys)"

definition ascii_lowercase :: string where
  "ascii_lowercase = ''abcdefghijklmnopqrstuvwxyz''"

definition ascii_uppercase :: string where
  "ascii_uppercase = ''ABCDEFGHIJKLMNOPQRSTUVWXYZ''"

definition to_upper :: "char \<Rightarrow> char" where
  "to_upper c = (case map_of (zip ascii_lowercase ascii_uppercase) c of Some u \<Rightarrow> u | None \<Rightarrow> c)"

definition to_lower :: "char \<Rightarrow> char" where
  "to_lower c = (case map_of (zip ascii_uppercase ascii_lowercase) c of Some l \<Rightarrow> l | None \<Rightarrow> c)"

definition is_cased :: "char \<Rightarrow> bool" where
  "is_cased c \<longleftrightarrow> c \<in> set ascii_lowercase \<or> c \<in> set ascii_uppercase"

text \<open>\<^verbatim>\<open>str.title\<close> on ASCII text: a letter that follows a letter is lowered, any other
  letter is raised, and every other character is kept and ends the word.\<close>

fun title_from :: "bool \<Rightarrow> string \<Rightarrow> string" where
  "title_from previous_is_cased [] = []"
| "title_from previous_is_cased (c # cs) =
     (if is_cased c
      then (if previous_is_cased then to_lower c else to_upper c) # title_from True cs
      else c # title_from False cs)"

definition title :: "string \<Rightarrow> string" where
  "title s = title_from False s"

text \<open>\<^verbatim>\<open>str(i)\<close> for a natural number.\<close>

definition digit_char :: "nat \<Rightarrow> char" where
  "digit_char d = ''0123456789'' ! d"

function str_nat :: "nat \<Rightarrow> string" where
  "str_nat n = (if n < 10 then [digit_char n] else str_nat (n div 10) @ [digit_char (n mod 10)])"
  by pat_completeness auto
termination
  by (relation "measure (\<lambda>n. n)") auto

declare str_nat.simps [simp del]

text \<open>
  \<^verbatim>\<open>str.format\<close> with keyword arguments \<open>kw\<close>, for templates whose replacement fields are plain names:
  \<^verbatim>\<open>{name}\<close> is replaced by \<^verbatim>\<open>kw[name]\<close> (KeyError when absent), \<^verbatim>\<open>{{\<close> and
  \<^verbatim>\<open>}}\<close> stand for one brace, and an unmatched brace is a ValueError. The second
  argument of \<open>format_from\<close> is the field name read so far, reversed, while the scan is
  inside a field. Conversions, format specifications and attribute or index lookups are not
  part of the model; no template of the program has one.
\<close>

definition emit :: "string \<Rightarrow> py_exception + string \<Rightarrow> py_exception + string" where
  "emit s r = (case r of Inl e \<Rightarrow> Inl e | Inr t \<Rightarrow> Inr (s @ t))"

fun format_from :: "(string \<times> string) list \<Rightarrow> string option \<Rightarrow> string \<Rightarrow> py_exception + string" where
  "format_from kw None [] = Inr []"
| "format_from kw None [c] =
     (if c = CHR ''{'' then Inl (ValueError ''Single { encountered in format string'')
      else if c = CHR ''}'' then Inl (ValueError ''Single } encountered in format string'')
      else Inr [c])"
| "format_from kw None (c # d # ds) =
     (if c = CHR ''{''
      then (if d = CHR ''{'' then emit [c] (format_from kw None ds)
            else format_from kw (Some []) (d # ds))
      else if c = CHR ''}''
      then (if d = CHR ''}'' then emit [c] (format_from kw None ds)
            else Inl (ValueError ''Single } encountered in format string''))
      else emit [c] (format_from kw None (d # ds)))"
| "format_from kw (Some field) [] = Inl (ValueError ''expected } before end of string'')"
| "format_from kw (Some field) (c # cs) =
     (if c = CHR ''}''
      then (case map_of kw (rev field) of
              None \<Rightarrow> Inl (KeyError (rev field))
            | Some v \<Rightarrow> emit v (format_from kw None cs))
      else format_from kw (Some (c # field)) cs)"

definition py_format :: "string \<Rightarrow> (string \<times> string) list \<Rightarrow> py_exception + string" where
  "py_format template kw = format_from kw None template"

text \<open>
  \<^verbatim>\<open>re.findall\<close> with the pattern \<^verbatim>\<open>\(([^)]+)\)\<close>: scanning from the left, a match starts at an
  opening parenthesis that is followed by at least one character other than a closing
  parenthesis and then by a closing parenthesis; the group is the longest such run (the
  class is greedy, and a shorter run would be followed by a character the pattern does not
  accept). The scan resumes after the closing parenthesis of a match, and one character
  further to the right where there is none.
\<close>

function findall_parenthesized :: "string \<Rightarrow> string list" where
  "findall_parenthesized [] = []"
| "findall_parenthesized (c # cs) =
     (if c = CHR ''('' \<and> takeWhile (\<lambda>d. d \<noteq> CHR '')'') cs \<noteq> []
         \<and> dropWhile (\<lambda>d. d \<noteq> CHR '')'') cs \<noteq> []
      then takeWhile (\<lambda>d. d \<noteq> CHR '')'') cs
             # findall_parenthesized (tl (dropWhile (\<lambda>d. d \<noteq> CHR '')'') cs))
      else findall_parenthesized cs)"
  by pat_completeness auto
termination
proof (relation "measure length")
  show "wf (measure length)" by simp
next
  fix c :: char and cs :: string
  assume "c = CHR ''('' \<and> takeWhile (\<lambda>d. d \<noteq> CHR '')'') cs \<noteq> []
            \<and> dropWhile (\<lambda>d. d \<noteq> CHR '')'') cs \<noteq> []"
  have "length (tl (dropWhile (\<lambda>d. d \<noteq> CHR '')'') cs)) \<le> length (dropWhile (\<lambda>d. d \<noteq> CHR '')'') cs)"
    by simp
  also have "\<dots> \<le> length cs" by (rule length_dropWhile_le)
  finally show "(tl (dropWhile (\<lambda>d. d \<noteq> CHR '')'') cs), c # cs) \<in> measure length" by simp
next
  fix c :: char and cs :: string
  show "(cs, c # cs) \<in> measure length" by simp
qed

text \<open>\<^verbatim>\<open>enumerate(xs)\<close>, counting from \<open>i\<close>.\<close>

fun enumerate_from :: "nat \<Rightarrow> 'a list \<Rightarrow> (nat \<times> 'a) list" where
  "enumerate_from i [] = []"
| "enumerate_from i (x # xs) = (i, x) # enumerate_from (Suc i) xs"

text \<open>An insertion-ordered dictionary is an association list with distinct keys;
  \<^verbatim>\<open>d[k] = v\<close> replaces the value of a present key in place and appends a new key.\<close>

fun dict_set :: "('k \<times> 'v) list \<Rightarrow> 'k \<Rightarrow> 'v \<Rightarrow> ('k \<times> 'v) list" where
  "dict_set [] k v = [(k, v)]"
| "dict_set ((k', v') # d) k v = (if k' = k then (k, v) # d else (k', v') # dict_set d k v)"

definition dict_get :: "('k \<times> 'v) list \<Rightarrow> 'k \<Rightarrow> 'v \<Rightarrow> 'v" where
  "dict_get d k fallback = (case map_of d k of Some v \<Rightarrow> v | None \<Rightarrow> fallback)"


section \<open>Paper sections and the context builder\<close>

definition sections :: "(string \<times> string) list" where
  "sections =
    [(''Abstract'',
      ''Write a detailed and structured abstract for a research paper about {topic}. Summarize the background, objectives, methods, key results, and conclusions in a concise academic style, including the significance of the findings.''),
     (''Introduction'',
      ''Write a comprehensive introduction for a research paper on {topic}. Include the study's significance, relevant background, existing research gaps, and how this study addresses them. Use an engaging and academic tone.''),
     (''Methodology'',
      ''Provide an in-depth methodology section for a research paper about {topic}. Include participant demographics, data collection instruments, procedures, and data analysis methods. Mention ethical considerations if applicable.''),
     (''Results'',
      ''Elaborate on the research findings for {topic}. Include detailed statistical results, tables if applicable, subgroup analyses, and comparisons to existing research. Ensure clear explanations of statistical terms.''),
     (''Discussion'',
      ''Write a critical discussion of the results obtained in the study about {topic}. Analyze implications, strengths, limitations, compare with related literature, and suggest future research directions.''),
     (''Conclusion'',
      ''Summarize the key findings and their significance for the study on {topic}. Discuss potential applications of the research, limitations, and recommendations for future studies.'')]"

definition contexts :: "(string \<times> string) list" where
  "contexts =
    [(''Abstract'', ''''),
     (''Introduction'',
      ''Previously in the Abstract, we established the research focus on {topic} \<newline>            using {methodology} which yielded {results}. Include relevant citations: {citations}.''),
     (''Methodology'',
      ''Based on the research objectives outlined in the Introduction regarding {topic},\<newline>            detail the following methodological approach: {methodology}. Reference similar methodologies: {citations}.''),
     (''Results'',
      ''Following the {methodology} described in the Methodology section,\<newline>            present these findings: {results}. Compare with similar studies: {citations}.''),
     (''Discussion'',
      ''Considering the results showing {results} obtained through {methodology},\<newline>            interpret these findings in the context of {topic}. Include comparative analysis: {citations}.''),
     (''Conclusion'',
      ''Given the findings {results} and their discussion in relation to {topic},\<newline>            provide concluding thoughts. Reference key literature: {citations}.'')]"

text \<open>
  \<open>build_context\<close>. The citations argument is optional in the source (\<open>None\<close> by
  default). Its outer dictionary is a map and each inner dictionary an association list in
  insertion order. The guard \<^verbatim>\<open>citations and section_name in citations\<close> is the membership
  test alone for a dictionary, since an empty dictionary has no key.
\<close>

definition build_context ::
  "string \<Rightarrow> (string \<times> string) list \<Rightarrow> (string \<rightharpoonup> (string \<times> string) list) option
     \<Rightarrow> py_exception + string" where
  "build_context section_name previous_sections citations =
     (let citation_text =
            (case citations of
               None \<Rightarrow> ''''
             | Some cm \<Rightarrow>
                 (case cm section_name of
                    None \<Rightarrow> ''''
                  | Some d \<Rightarrow> join '', '' (map snd d)));
          base_context = dict_get contexts section_name ''''
      in if base_context = '''' then Inr ''''
         else py_format base_context
                [(''topic'', dict_get previous_sections ''topic'' ''''),
                 (''methodology'', dict_get previous_sections ''methodology'' ''''),
                 (''results'', dict_get previous_sections ''results'' ''''),
                 (''citations'', citation_text)])"


section \<open>Markdown export\<close>

text \<open>The loop of \<open>format_to_markdown\<close> appends one rendered section to
  \<open>markdown_sections\<close> per item of the dictionary.\<close>

fun markdown_loop :: "(string \<times> string) list \<Rightarrow> string list \<Rightarrow> string list" where
  "markdown_loop [] markdown_sections = markdown_sections"
| "markdown_loop ((section, content) # rest) markdown_sections =
     markdown_loop rest
       (markdown_sections @ [''## '' @ section @ ''\<newline>\<newline>'' @ strip content @ ''\<newline>''])"

definition format_to_markdown :: "(string \<times> string) list \<Rightarrow> string" where
  "format_to_markdown section_texts = join ''\<newline>---\<newline>'' (markdown_loop section_texts [])"


section \<open>The application object\<close>

text \<open>
  The fields of \<open>ResearchPaperGeneratorApp\<close> that the pipeline reads or writes, and the
  effects it has on the outside world.
  \<^item> \<open>inputs\<close>: the entry widgets by field name. \<open>setup_ui\<close> stores exactly the keys
    \<open>api_key\<close>, \<open>topic\<close>, \<open>methodology\<close> and \<open>results\<close>, and the program indexes the
    dictionary with these four literals only, so the model keeps an entry for every key.
  \<^item> \<open>progress_bars\<close>, \<open>status_labels\<close>: the per-section widgets, as insertion-ordered
    dictionaries from the section name to what the widget shows.
  \<^item> \<open>section_texts\<close>: insertion-ordered; \<open>citations\<close>: a map to inner dictionaries in
    insertion order.
  \<^item> \<open>current_task\<close>: \<open>None\<close>, or the thread the application started last.
  \<^item> \<open>status_label\<close>: the text and the text colour of the main status label (\<open>None\<close> is
    the colour of the theme, before the first update).
  \<^item> \<open>threads_started\<close>, \<open>api_key_configured\<close>, \<open>generate_calls\<close>, \<open>files\<close>: the worker
    threads started so far, the key handed to the client library, the prompts sent to
    \<open>model.generate_content\<close> in order, and the files written in order.
\<close>

record entry_widget =
  entry_text :: string
  entry_state :: string

datatype doc_item = Heading string nat | Paragraph string

datatype file_content = Docx "doc_item list" | Utf8Text string

record app =
  citations :: "string \<rightharpoonup> (string \<times> string) list"
  current_task :: "nat option"
  closing :: bool
  inputs :: "string \<Rightarrow> entry_widget"
  progress_bars :: "(string \<times> real) list"
  status_labels :: "(string \<times> string) list"
  section_texts :: "(string \<times> string) list"
  save_as_markdown :: bool
  save_as_markdown_var :: bool
  generate_button :: string
  status_label :: "string \<times> string option"
  threads_started :: nat
  api_key_configured :: "string option"
  generate_calls :: "string list"
  files :: "(string \<times> file_content) list"

text \<open>
  What the run does not decide: the outcome of the \<open>i\<close>-th generation call of a run
  (\<open>Inr\<close> the text of the response, \<open>Inl\<close> the message of the exception that
  \<open>generate_content\<close> or \<open>response.text\<close> raised), whether the owner of the window sets
  the \<open>closing\<close> flag while section \<open>i\<close> is being handled (during the call or during the
  pause after it: the run reads the flag only at the head of the loop and after the loop),
  and the clock. Writing a file and configuring the client library are taken to succeed;
  building the Word document is not, see \<open>save_document\<close>.
\<close>

record world =
  response :: "nat \<Rightarrow> string + string"
  closing_during :: "nat \<Rightarrow> bool"
  timestamp :: string

text \<open>\<open>__init__\<close> and \<open>setup_ui\<close>: empty entries, one progress bar at 0 and one label
  \<open>Pending\<close> per section.\<close>

definition setup_ui :: app where
  "setup_ui =
     \<lparr>citations = Map.empty,
      current_task = None,
      closing = False,
      inputs = (\<lambda>field. \<lparr>entry_text = '''', entry_state = ''normal''\<rparr>),
      progress_bars = map (\<lambda>(section_name, prompt_template). (section_name, 0)) sections,
      status_labels = map (\<lambda>(section_name, prompt_template). (section_name, ''Pending'')) sections,
      section_texts = [],
      save_as_markdown = False,
      save_as_markdown_var = False,
      generate_button = ''normal'',
      status_label = ('''', None),
      threads_started = 0,
      api_key_configured = None,
      generate_calls = [],
      files = []\<rparr>"

text \<open>\<open>str(e)\<close> for the exceptions of the model. The message of an unbound local variable
  is the one of CPython 3.11 and later.\<close>

fun exn_str :: "py_exception \<Rightarrow> string" where
  "exn_str (KeyError k) = [CHR 0x27] @ k @ [CHR 0x27]"
| "exn_str (ValueError m) = m"
| "exn_str (UnboundLocalError v) =
     ''cannot access local variable '' @ [CHR 0x27] @ v @ [CHR 0x27]
       @ '' where it is not associated with a value''"
| "exn_str (ExternalError m) = m"
| "exn_str (PyException m) = m"

fun validate_fields :: "app \<Rightarrow> string list \<Rightarrow> bool \<times> string" where
  "validate_fields a [] = (True, '''')"
| "validate_fields a (field # rest) =
     (if strip (entry_text (inputs a field)) = '''' then (False, title field @ '' is required'')
      else validate_fields a rest)"

definition required_fields :: "string list" where
  "required_fields = [''api_key'', ''topic'', ''methodology'', ''results'']"

definition validate_inputs :: "app \<Rightarrow> bool \<times> string" where
  "validate_inputs a = validate_fields a required_fields"

definition update_status_label :: "string \<Rightarrow> bool \<Rightarrow> app \<Rightarrow> app" where
  "update_status_label message is_error a =
     a\<lparr>status_label := (message, Some (if is_error then ''red'' else ''white''))\<rparr>"

text \<open>\<open>update_progress\<close>. \<open>setup_ui\<close> gives \<open>status_labels\<close> the keys of
  \<open>progress_bars\<close> and nothing removes a key, so the label of a section that has a progress
  bar is present.\<close>

definition update_progress :: "string \<Rightarrow> string \<Rightarrow> real \<Rightarrow> app \<Rightarrow> app" where
  "update_progress section status progress a =
     (if map_of (progress_bars a) section \<noteq> None
      then a\<lparr>progress_bars := dict_set (progress_bars a) section progress,
             status_labels := dict_set (status_labels a) section status\<rparr>
      else a)"

definition toggle_inputs :: "bool \<Rightarrow> app \<Rightarrow> app" where
  "toggle_inputs enabled a =
     (let state = (if enabled then ''normal'' else ''disabled'')
      in a\<lparr>inputs := (\<lambda>field. (inputs a field)\<lparr>entry_state := state\<rparr>),
            generate_button := state\<rparr>)"

text \<open>\<open>start_generation\<close>, up to the start of the worker thread; the thread runs
  \<open>generate_paper\<close>.\<close>

definition start_generation :: "app \<Rightarrow> app" where
  "start_generation a =
     (if current_task a \<noteq> None then a
      else
        let a1 = toggle_inputs False a;
            a2 = update_status_label ''Generating paper...'' False a1;
            a3 = a2\<lparr>citations := Map.empty, section_texts := []\<rparr>;
            a4 = fold (\<lambda>section_name. update_progress section_name ''Pending'' 0)
                   (map fst (progress_bars a3)) a3
        in a4\<lparr>current_task := Some (threads_started a4),
               threads_started := Suc (threads_started a4)\<rparr>)"

definition extract_citations :: "string \<Rightarrow> string \<Rightarrow> app \<Rightarrow> app" where
  "extract_citations text section_name a =
     (let found = findall_parenthesized text
      in if found \<noteq> []
         then a\<lparr>citations := (citations a)(section_name \<mapsto>
                  map (\<lambda>(i, citation). (''citation_'' @ str_nat i, citation))
                    (enumerate_from 0 found))\<rparr>
         else a)"

text \<open>
  \<open>save_document\<close>. The document library stores the text of a heading or of a paragraph
  in an XML tree, and the tree refuses a string with a NUL byte or a control character: a
  character below 32 other than TAB, LF and CR. \<open>add_heading\<close> and \<open>add_paragraph\<close> then
  raise a ValueError, before the document is saved and before the flag
  \<open>save_as_markdown\<close> is touched. The local variable \<open>filename_md\<close> is bound only in the
  branch of the checkbox; reading it unbound raises, after the Word file has been written.
\<close>

definition xml_char :: "char \<Rightarrow> bool" where
  "xml_char c \<longleftrightarrow> (of_char c :: nat) \<in> {9, 10, 13} \<or> 32 \<le> (of_char c :: nat)"

definition xml_compatible :: "string \<Rightarrow> bool" where
  "xml_compatible s \<longleftrightarrow> list_all xml_char s"

definition xml_error :: py_exception where
  "xml_error =
     ValueError ''All strings must be XML compatible: Unicode or ASCII, no NULL bytes or control characters''"

fun document_loop ::
  "(string \<times> string) list \<Rightarrow> doc_item list \<Rightarrow> py_exception + doc_item list" where
  "document_loop [] doc = Inr doc"
| "document_loop ((section_name, text) # rest) doc =
     (if \<not> xml_compatible section_name then Inl xml_error
      else if \<not> xml_compatible text then Inl xml_error
      else document_loop rest (doc @ [Heading section_name 1, Paragraph text, Paragraph '''']))"

definition save_document ::
  "string \<Rightarrow> (string \<times> string) list \<Rightarrow> app \<Rightarrow> (py_exception \<times> app) + app" where
  "save_document now texts a =
     (case document_loop texts [] of
        Inl e \<Rightarrow> Inl (e, a)
      | Inr doc \<Rightarrow>
          let filename_word = ''research_paper_'' @ now @ ''.docx'';
              a1 = a\<lparr>files := files a @ [(filename_word, Docx doc)]\<rparr>;
              (filename_md, a2) =
                 (if save_as_markdown_var a1
                  then (Some (''research_paper_'' @ now @ ''.md''),
                        a1\<lparr>save_as_markdown := True,
                           files := files a1 @ [(''research_paper_'' @ now @ ''.md'',
                                                 Utf8Text (format_to_markdown texts))]\<rparr>)
                  else (None, a1))
          in if save_as_markdown a2
             then (case filename_md of
                     None \<Rightarrow> Inl (UnboundLocalError ''filename_md'', a2)
                   | Some name \<Rightarrow>
                       Inr (update_status_label
                              (''Paper saved as '' @ filename_word @ '' and '' @ name) False a2))
             else Inr (update_status_label
                         (''Paper saved as '' @ filename_word @ '' and '' @ '''') False a2))"

text \<open>The body of the inner \<open>try\<close> for one section. An exception leaves with the state
  reached when it was raised.\<close>

definition requirements :: string where
  "requirements = ''\<newline>                    \<newline>                    Requirements:\<newline>                    1. Use academic writing style\<newline>                    2. Include proper citations\<newline>                    3. Maintain consistent formatting\<newline>                    4. Ensure factual accuracy\<newline>                    5. Cross-reference with existing literature\<newline>                    \<newline>                    ''"

definition generate_section ::
  "world \<Rightarrow> nat \<Rightarrow> (string \<times> string) list \<Rightarrow> string \<Rightarrow> string \<Rightarrow> app
     \<Rightarrow> (py_exception \<times> app) + app" where
  "generate_section w i input_values section_name prompt_template a =
     (case build_context section_name input_values (Some (citations a)) of
        Inl e \<Rightarrow> Inl (e, a)
      | Inr context \<Rightarrow>
          (case py_format prompt_template input_values of
             Inl e \<Rightarrow> Inl (e, a)
           | Inr body \<Rightarrow>
               let prompt = context @ requirements @ body @ ''\<newline>                    '';
                   a1 = a\<lparr>generate_calls := generate_calls a @ [prompt],
                          closing := closing a \<or> closing_during w i\<rparr>
               in (case response w i of
                     Inl cause \<Rightarrow> Inl (ExternalError cause, a1)
                   | Inr section_text \<Rightarrow>
                       let a2 = extract_citations section_text section_name a1;
                           a3 = a2\<lparr>section_texts :=
                                     dict_set (section_texts a2) section_name section_text\<rparr>
                       in Inr (update_progress section_name ''Complete'' 1 a3))))"

text \<open>The loop over \<open>sections\<close>; \<open>i\<close> counts the sections handled so far.\<close>

fun generate_sections ::
  "world \<Rightarrow> (string \<times> string) list \<Rightarrow> nat \<Rightarrow> (string \<times> string) list \<Rightarrow> app
     \<Rightarrow> (py_exception \<times> app) + app" where
  "generate_sections w input_values i [] a = Inr a"
| "generate_sections w input_values i ((section_name, prompt_template) # rest) a =
     (if closing a then Inr a
      else
        (case generate_section w i input_values section_name prompt_template
                (update_progress section_name ''Generating...'' (1 / 2) a) of
           Inl (e, a') \<Rightarrow>
             Inl (PyException (''Error generating '' @ section_name @ '': '' @ exn_str e),
                  update_progress section_name ''Failed'' 0 a')
         | Inr a' \<Rightarrow> generate_sections w input_values (Suc i) rest a'))"

text \<open>\<open>generate_paper\<close>: the outer \<open>try\<close>, its handler and its \<open>finally\<close>.\<close>

definition generate_paper_body :: "world \<Rightarrow> app \<Rightarrow> (py_exception \<times> app) + app" where
  "generate_paper_body w a =
     (case validate_inputs a of
        (valid, message) \<Rightarrow>
          if \<not> valid then Inr (update_status_label message True a)
          else
            let api_key = entry_text (inputs a ''api_key'');
                a1 = a\<lparr>api_key_configured := Some api_key\<rparr>;
                input_values =
                  [(''topic'', entry_text (inputs a1 ''topic'')),
                   (''methodology'', entry_text (inputs a1 ''methodology'')),
                   (''results'', entry_text (inputs a1 ''results''))]
            in (case generate_sections w input_values 0 sections a1 of
                  Inl raised \<Rightarrow> Inl raised
                | Inr a2 \<Rightarrow>
                    if \<not> closing a2
                    then (case save_document (timestamp w) (section_texts a2) a2 of
                            Inl raised \<Rightarrow> Inl raised
                          | Inr a3 \<Rightarrow>
                              Inr (update_status_label
                                     ''Research paper generated successfully!'' False a3))
                    else Inr a2))"

definition generate_paper :: "world \<Rightarrow> app \<Rightarrow> app" where
  "generate_paper w a =
     (let a' = (case generate_paper_body w a of
                  Inl (e, a1) \<Rightarrow> update_status_label (''Error: '' @ exn_str e) True a1
                | Inr a1 \<Rightarrow> a1)
      in (toggle_inputs True a')\<lparr>current_task := None\<rparr>)"


section \<open>Observations on the state\<close>

text \<open>What the widgets of a section show: the text of its status label and the value of
  its progress bar.\<close>

definition section_row :: "app \<Rightarrow> string \<Rightarrow> string option \<times> real option" where
  "section_row a section_name =
     (map_of (status_labels a) section_name, map_of (progress_bars a) section_name)"

text \<open>The widgets that \<open>setup_ui\<close> creates: one progress bar and one status label per
  section, in the order of \<open>sections\<close>.\<close>

definition widgets_ready :: "app \<Rightarrow> bool" where
  "widgets_ready a \<longleftrightarrow>
     map fst (progress_bars a) = map fst sections \<and> map fst (status_labels a) = map fst sections"

text \<open>The fields that the loop over the sections leaves alone.\<close>

definition run_frame :: "app \<Rightarrow> app \<Rightarrow> bool" where
  "run_frame a a' \<longleftrightarrow>
     current_task a' = current_task a \<and> inputs a' = inputs a
     \<and> save_as_markdown a' = save_as_markdown a
     \<and> save_as_markdown_var a' = save_as_markdown_var a
     \<and> generate_button a' = generate_button a \<and> status_label a' = status_label a
     \<and> threads_started a' = threads_started a
     \<and> api_key_configured a' = api_key_configured a \<and> files a' = files a"

text \<open>The state in which a call ends, raised or returned.\<close>

definition state_after :: "(py_exception \<times> app) + app \<Rightarrow> app" where
  "state_after r = (case r of Inl (e, a) \<Rightarrow> a | Inr a \<Rightarrow> a)"


section \<open>Example states\<close>

text \<open>An application in which every entry holds the text \<open>x\<close>; a world whose third
  generation call raises; a world in which the window is being closed while the second
  section is handled; a world whose every response cites one work.\<close>

definition filled_form :: app where
  "filled_form = setup_ui\<lparr>inputs := (\<lambda>field. \<lparr>entry_text = ''x'', entry_state = ''normal''\<rparr>)\<rparr>"

definition failing_world :: world where
  "failing_world =
     \<lparr>response = (\<lambda>i. if i < 2 then Inr ''text'' else Inl ''quota exceeded''),
      closing_during = (\<lambda>i. False),
      timestamp = ''20240101_120000''\<rparr>"

definition closing_world :: world where
  "closing_world =
     \<lparr>response = (\<lambda>i. Inr ''text''),
      closing_during = (\<lambda>i. i = 1),
      timestamp = ''20240101_120000''\<rparr>"

definition citing_world :: world where
  "citing_world =
     \<lparr>response = (\<lambda>i. Inr ''Prior work exists (Smith, 2020).''),
      closing_during = (\<lambda>i. False),
      timestamp = ''20240101_120000''\<rparr>"


section \<open>Properties of the text functions\<close>

lemma markdown_loop_map:
  "markdown_loop items acc =
     acc @ map (\<lambda>(name, text). ''## '' @ name @ ''\<newline>\<newline>'' @ strip text @ ''\<newline>'') items"
  by (induction items acc rule: markdown_loop.induct) simp_all

text \<open>
  C6. For every ordered mapping of section name to text (the empty one included), the
  markdown export is the list of strings \<^verbatim>\<open>"## <name>\n\n<text.strip()>\n"\<close>, one per
  section in insertion order, joined with the separator \<^verbatim>\<open>"\n---\n"\<close>.
\<close>

theorem format_to_markdown_joined:
  "format_to_markdown texts =
     join ''\<newline>---\<newline>''
       (map (\<lambda>(name, text). ''## '' @ name @ ''\<newline>\<newline>'' @ strip text @ ''\<newline>'') texts)"
  by (simp add: format_to_markdown_def markdown_loop_map)

lemma emit_Inr [simp]: "emit s (Inr t) = Inr (s @ t)"
  by (simp add: emit_def)

lemma emit_Inl [simp]: "emit s (Inl e) = Inl e"
  by (simp add: emit_def)


section \<open>The citation extractor\<close>

text \<open>
  C7. On the text \<^verbatim>\<open>Smith showed X (Smith, 2020) and Jones confirmed it (Jones, 2021).\<close>
  the extractor stores, under the section's name, the dictionary with exactly the two
  entries \<open>citation_0\<close> \<open>\<mapsto>\<close> \<open>Smith, 2020\<close> and \<open>citation_1\<close> \<open>\<mapsto>\<close> \<open>Jones, 2021\<close>, in
  that order, whatever the section and the state of the application.
\<close>

theorem extract_citations_two_entries:
  "citations
     (extract_citations ''Smith showed X (Smith, 2020) and Jones confirmed it (Jones, 2021).''
        section_name a)
   = (citations a)(section_name \<mapsto>
        [(''citation_0'', ''Smith, 2020''), (''citation_1'', ''Jones, 2021'')])"
  by (simp add: extract_citations_def str_nat.simps digit_char_def)

text \<open>A match of the pattern is a span from an opening to a later closing parenthesis.\<close>

lemma findall_parenthesized_span:
  "findall_parenthesized s \<noteq> [] \<Longrightarrow> \<exists>pre mid post. s = pre @ ''('' @ mid @ '')'' @ post"
proof (induction s rule: findall_parenthesized.induct)
  case 1
  then show ?case by simp
next
  case (2 c cs)
  let ?P = "\<lambda>d. d \<noteq> CHR '')''"
  show ?case
  proof (cases "c = CHR ''('' \<and> takeWhile ?P cs \<noteq> [] \<and> dropWhile ?P cs \<noteq> []")
    case True
    then have ne: "dropWhile ?P cs \<noteq> []" by blast
    then obtain x rest where dw: "dropWhile ?P cs = x # rest"
      by (cases "dropWhile ?P cs") blast+
    from hd_dropWhile [OF ne] dw have "x = CHR '')''" by simp
    with dw have rest: "dropWhile ?P cs = CHR '')'' # rest" by blast
    have "cs = takeWhile ?P cs @ dropWhile ?P cs" by simp
    with rest True have "c # cs = [] @ ''('' @ takeWhile ?P cs @ '')'' @ rest" by simp
    then show ?thesis by blast
  next
    case False
    with "2.prems" have "findall_parenthesized cs \<noteq> []" by auto
    with "2.IH"(2) False obtain pre mid post where "cs = pre @ ''('' @ mid @ '')'' @ post"
      by blast
    then have "c # cs = (c # pre) @ ''('' @ mid @ '')'' @ post" by simp
    then show ?thesis by blast
  qed
qed

text \<open>
  C8. When the text has no parenthesized substring, that is, no opening parenthesis with a
  closing one somewhere after it, the extractor returns the application unchanged: no entry
  is added for the section, a key that was absent stays absent, and the entries of every
  other section are as before.
\<close>

theorem extract_citations_without_parentheses:
  assumes "\<not> (\<exists>pre mid post. s = pre @ ''('' @ mid @ '')'' @ post)"
  shows "extract_citations s section_name a = a"
  using assms findall_parenthesized_span [of s] by (auto simp: extract_citations_def Let_def)

theorem extract_citations_without_parentheses_witness:
  "extract_citations ''No citations here.'' ''Abstract'' setup_ui = setup_ui"
proof -
  have "\<not> (\<exists>pre mid post. ''No citations here.'' = pre @ ''('' @ mid @ '')'' @ post)"
  proof
    assume "\<exists>pre mid post. ''No citations here.'' = pre @ ''('' @ mid @ '')'' @ post"
    then obtain pre mid post where "''No citations here.'' = pre @ ''('' @ mid @ '')'' @ post"
      by blast
    then have "CHR ''('' \<in> set ''No citations here.''"
      by (rule ssubst) simp
    then show False by simp
  qed
  then show ?thesis by (rule extract_citations_without_parentheses)
qed


section \<open>The context builder\<close>

text \<open>
  C9. For the first section, \<open>Abstract\<close>, and for every section name that has no entry in
  \<open>contexts\<close>, the context builder returns the empty string and does not raise, whatever
  the prior inputs and the citations (absent or present) are.
\<close>

theorem build_context_empty:
  assumes "section_name = ''Abstract'' \<or> section_name \<notin> fst ` set contexts"
  shows "build_context section_name previous_sections cits = Inr ''''"
proof -
  have "dict_get contexts section_name '''' = ''''"
    using assms
  proof
    assume "section_name = ''Abstract''"
    then show ?thesis by (simp add: dict_get_def contexts_def)
  next
    assume "section_name \<notin> fst ` set contexts"
    then have "map_of contexts section_name = None" by (simp add: map_of_eq_None_iff)
    then show ?thesis by (simp add: dict_get_def)
  qed
  then show ?thesis by (simp add: build_context_def Let_def)
qed

theorem build_context_empty_witness:
  "build_context ''Abstract'' [(''topic'', ''T'')] (Some [''Abstract'' \<mapsto> [(''citation_0'', ''X'')]])
     = Inr ''''
   \<and> build_context ''References'' [(''topic'', ''T'')] None = Inr ''''"
proof -
  have "''References'' \<notin> fst ` set contexts" by (simp add: contexts_def)
  then show ?thesis
    using build_context_empty [of "''Abstract''"] build_context_empty [of "''References''"]
    by simp
qed


section \<open>Starting a run\<close>

text \<open>
  C4. A start request that arrives while a run holds the handle \<open>current_task\<close> returns the
  application as it is: citations, section texts, the widgets of every section, the state
  of the entries and of the button are untouched, and no thread is started.
\<close>

theorem start_generation_while_running:
  assumes "current_task a \<noteq> None"
  shows "start_generation a = a"
  using assms by (simp add: start_generation_def)

theorem start_generation_while_running_witness:
  "start_generation (start_generation setup_ui) = start_generation setup_ui"
proof -
  have "current_task (start_generation setup_ui) \<noteq> None"
    by (simp add: start_generation_def setup_ui_def Let_def)
  then show ?thesis by (rule start_generation_while_running)
qed

section \<open>The section pipeline\<close>

subsection \<open>Frame and dictionary lemmas\<close>

lemma update_progress_frame [simp]:
  "citations (update_progress n s p a) = citations a"
  "current_task (update_progress n s p a) = current_task a"
  "closing (update_progress n s p a) = closing a"
  "inputs (update_progress n s p a) = inputs a"
  "section_texts (update_progress n s p a) = section_texts a"
  "save_as_markdown (update_progress n s p a) = save_as_markdown a"
  "save_as_markdown_var (update_progress n s p a) = save_as_markdown_var a"
  "generate_button (update_progress n s p a) = generate_button a"
  "status_label (update_progress n s p a) = status_label a"
  "threads_started (update_progress n s p a) = threads_started a"
  "api_key_configured (update_progress n s p a) = api_key_configured a"
  "generate_calls (update_progress n s p a) = generate_calls a"
  "files (update_progress n s p a) = files a"
  by (simp_all add: update_progress_def)

lemma extract_citations_frame [simp]:
  "current_task (extract_citations s n a) = current_task a"
  "closing (extract_citations s n a) = closing a"
  "inputs (extract_citations s n a) = inputs a"
  "progress_bars (extract_citations s n a) = progress_bars a"
  "status_labels (extract_citations s n a) = status_labels a"
  "section_texts (extract_citations s n a) = section_texts a"
  "save_as_markdown (extract_citations s n a) = save_as_markdown a"
  "save_as_markdown_var (extract_citations s n a) = save_as_markdown_var a"
  "generate_button (extract_citations s n a) = generate_button a"
  "status_label (extract_citations s n a) = status_label a"
  "threads_started (extract_citations s n a) = threads_started a"
  "api_key_configured (extract_citations s n a) = api_key_configured a"
  "generate_calls (extract_citations s n a) = generate_calls a"
  "files (extract_citations s n a) = files a"
  by (simp_all add: extract_citations_def Let_def)

lemma update_status_label_frame [simp]:
  "citations (update_status_label msg e a) = citations a"
  "current_task (update_status_label msg e a) = current_task a"
  "closing (update_status_label msg e a) = closing a"
  "inputs (update_status_label msg e a) = inputs a"
  "progress_bars (update_status_label msg e a) = progress_bars a"
  "status_labels (update_status_label msg e a) = status_labels a"
  "section_texts (update_status_label msg e a) = section_texts a"
  "save_as_markdown (update_status_label msg e a) = save_as_markdown a"
  "save_as_markdown_var (update_status_label msg e a) = save_as_markdown_var a"
  "generate_button (update_status_label msg e a) = generate_button a"
  "threads_started (update_status_label msg e a) = threads_started a"
  "api_key_configured (update_status_label msg e a) = api_key_configured a"
  "generate_calls (update_status_label msg e a) = generate_calls a"
  "files (update_status_label msg e a) = files a"
  "status_label (update_status_label msg e a) = (msg, Some (if e then ''red'' else ''white''))"
  by (simp_all add: update_status_label_def)

lemma toggle_inputs_frame [simp]:
  "citations (toggle_inputs b a) = citations a"
  "current_task (toggle_inputs b a) = current_task a"
  "closing (toggle_inputs b a) = closing a"
  "progress_bars (toggle_inputs b a) = progress_bars a"
  "status_labels (toggle_inputs b a) = status_labels a"
  "section_texts (toggle_inputs b a) = section_texts a"
  "save_as_markdown (toggle_inputs b a) = save_as_markdown a"
  "save_as_markdown_var (toggle_inputs b a) = save_as_markdown_var a"
  "status_label (toggle_inputs b a) = status_label a"
  "threads_started (toggle_inputs b a) = threads_started a"
  "api_key_configured (toggle_inputs b a) = api_key_configured a"
  "generate_calls (toggle_inputs b a) = generate_calls a"
  "files (toggle_inputs b a) = files a"
  "entry_text (inputs (toggle_inputs b a) field) = entry_text (inputs a field)"
  by (simp_all add: toggle_inputs_def Let_def)

lemma map_of_dict_set: "map_of (dict_set d k v) = (map_of d)(k \<mapsto> v)"
  by (induction d k v rule: dict_set.induct) auto

lemma keys_dict_set: "k \<in> set (map fst d) \<Longrightarrow> map fst (dict_set d k v) = map fst d"
  by (induction d k v rule: dict_set.induct) auto

lemma map_of_keys: "map_of d k \<noteq> None \<longleftrightarrow> k \<in> set (map fst d)"
  by (simp add: map_of_eq_None_iff)

lemma section_row_update_progress:
  "map_of (progress_bars a) n \<noteq> None \<Longrightarrow>
     section_row (update_progress n s p a) m = (if m = n then (Some s, Some p) else section_row a m)"
  by (simp add: section_row_def update_progress_def map_of_dict_set)

lemma widgets_ready_update_progress:
  "widgets_ready a \<Longrightarrow> widgets_ready (update_progress n s p a)"
proof (cases "map_of (progress_bars a) n = None")
  case True
  then show "widgets_ready a \<Longrightarrow> widgets_ready (update_progress n s p a)"
    by (simp add: update_progress_def)
next
  case False
  assume w: "widgets_ready a"
  from False have k: "n \<in> set (map fst (progress_bars a))"
    using map_of_keys [of "progress_bars a" n] by blast
  with w have k': "n \<in> set (map fst (status_labels a))"
    by (simp add: widgets_ready_def)
  show "widgets_ready (update_progress n s p a)"
    using w False keys_dict_set [OF k] keys_dict_set [OF k']
    by (simp add: widgets_ready_def update_progress_def)
qed

lemma widgets_ready_has_bar:
  "widgets_ready a \<Longrightarrow> (n, t) \<in> set sections \<Longrightarrow> map_of (progress_bars a) n \<noteq> None"
  unfolding map_of_keys widgets_ready_def by force

lemma run_frame_refl [simp]: "run_frame a a"
  by (simp add: run_frame_def)

lemma run_frame_trans: "run_frame a b \<Longrightarrow> run_frame b c \<Longrightarrow> run_frame a c"
  by (simp add: run_frame_def)

lemma sections_cases:
  "(n, t) \<in> set sections \<Longrightarrow>
     (n, t) = sections ! 0 \<or> (n, t) = sections ! 1 \<or> (n, t) = sections ! 2
     \<or> (n, t) = sections ! 3 \<or> (n, t) = sections ! 4 \<or> (n, t) = sections ! 5"
  by (auto simp: sections_def)

lemma prompt_template_formats:
  "(n, t) \<in> set sections \<Longrightarrow>
     \<exists>body. py_format t [(''topic'', x), (''methodology'', m), (''results'', r)] = Inr body"
  apply (drule sections_cases)
  apply (elim disjE)
  apply (simp_all add: sections_def py_format_def)
  done

lemma build_context_returns:
  "(n, t) \<in> set sections \<Longrightarrow> \<exists>ctx. build_context n iv cits = Inr ctx"
  apply (drule sections_cases)
  apply (elim disjE)
  apply (simp_all add: sections_def build_context_def Let_def)
  apply (simp_all add: dict_get_def [of contexts])
  apply (simp_all add: contexts_def py_format_def)
  done

lemma step_success:
  assumes "widgets_ready a" "(n, t) \<in> set sections" "response w i = Inr body" "\<not> closing a"
  shows "\<exists>a'. generate_sections w [(''topic'', x), (''methodology'', m), (''results'', r)] i ((n, t) # rest) a
             = generate_sections w [(''topic'', x), (''methodology'', m), (''results'', r)] (Suc i) rest a'
           \<and> widgets_ready a'
           \<and> (\<forall>k. section_row a' k = (if k = n then (Some ''Complete'', Some 1) else section_row a k))
           \<and> run_frame a a'
           \<and> length (generate_calls a') = Suc (length (generate_calls a))
           \<and> closing a' = closing_during w i
           \<and> (\<forall>k. k \<noteq> n \<longrightarrow> citations a' k = citations a k)
           \<and> citations a' n
               = (if findall_parenthesized body = [] then citations a n
                  else Some (map (\<lambda>(i, citation). (''citation_'' @ str_nat i, citation))
                               (enumerate_from 0 (findall_parenthesized body))))"
proof -
  let ?iv = "[(''topic'', x), (''methodology'', m), (''results'', r)]"
  let ?g = "update_progress n ''Generating...'' (1 / 2) a"
  obtain ctx where c: "build_context n ?iv (Some (citations ?g)) = Inr ctx"
    using build_context_returns [OF assms(2)] by blast
  obtain fb where b: "py_format t ?iv = Inr fb"
    using prompt_template_formats [OF assms(2)] by blast
  have bar: "map_of (progress_bars a) n \<noteq> None"
    using assms(1,2) by (rule widgets_ready_has_bar)
  have wg: "widgets_ready ?g" using assms(1) by (rule widgets_ready_update_progress)
  have barg: "map_of (progress_bars ?g) n \<noteq> None"
    using wg assms(2) by (rule widgets_ready_has_bar)
  define a3 where "a3 = (extract_citations body n
      (?g\<lparr>generate_calls := generate_calls ?g @ [ctx @ requirements @ fb @ ''\<newline>                    ''],
          closing := closing ?g \<or> closing_during w i\<rparr>))
      \<lparr>section_texts := dict_set (section_texts a) n body\<rparr>"
  have gs: "generate_section w i ?iv n t ?g = Inr (update_progress n ''Complete'' 1 a3)"
    using c b assms(3) by (simp add: generate_section_def Let_def a3_def)
  have bar3: "map_of (progress_bars a3) n \<noteq> None" using barg by (simp add: a3_def)
  have w3: "widgets_ready a3" using wg by (simp add: a3_def widgets_ready_def)
  have row3: "section_row a3 k = section_row ?g k" for k by (simp add: a3_def section_row_def)
  let ?a' = "update_progress n ''Complete'' 1 a3"
  have "generate_sections w ?iv i ((n, t) # rest) a = generate_sections w ?iv (Suc i) rest ?a'"
    using assms(4) gs by simp
  moreover have "widgets_ready ?a'" using w3 by (rule widgets_ready_update_progress)
  moreover have "\<forall>k. section_row ?a' k = (if k = n then (Some ''Complete'', Some 1) else section_row a k)"
    by (simp add: section_row_update_progress [OF bar3] row3 section_row_update_progress [OF bar])
  moreover have "run_frame a ?a'" by (simp add: run_frame_def a3_def)
  moreover have "length (generate_calls ?a') = Suc (length (generate_calls a))" by (simp add: a3_def)
  moreover have "closing ?a' = closing_during w i" using assms(4) by (simp add: a3_def)
  moreover have "\<forall>k. k \<noteq> n \<longrightarrow> citations ?a' k = citations a k"
    by (simp add: a3_def extract_citations_def Let_def)
  moreover have "citations ?a' n
      = (if findall_parenthesized body = [] then citations a n
         else Some (map (\<lambda>(i, citation). (''citation_'' @ str_nat i, citation))
                      (enumerate_from 0 (findall_parenthesized body))))"
    by (simp add: a3_def extract_citations_def Let_def)
  ultimately show ?thesis by blast
qed

lemma step_failure:
  assumes "widgets_ready a" "(n, t) \<in> set sections" "response w i = Inl cause" "\<not> closing a"
  shows "\<exists>a'. generate_sections w [(''topic'', x), (''methodology'', m), (''results'', r)] i ((n, t) # rest) a
             = Inl (PyException (''Error generating '' @ n @ '': '' @ cause), a')
           \<and> widgets_ready a'
           \<and> (\<forall>k. section_row a' k = (if k = n then (Some ''Failed'', Some 0) else section_row a k))
           \<and> run_frame a a'
           \<and> length (generate_calls a') = Suc (length (generate_calls a))"
proof -
  let ?iv = "[(''topic'', x), (''methodology'', m), (''results'', r)]"
  let ?g = "update_progress n ''Generating...'' (1 / 2) a"
  obtain ctx where c: "build_context n ?iv (Some (citations ?g)) = Inr ctx"
    using build_context_returns [OF assms(2)] by blast
  obtain fb where b: "py_format t ?iv = Inr fb"
    using prompt_template_formats [OF assms(2)] by blast
  have bar: "map_of (progress_bars a) n \<noteq> None"
    using assms(1,2) by (rule widgets_ready_has_bar)
  have wg: "widgets_ready ?g" using assms(1) by (rule widgets_ready_update_progress)
  have barg: "map_of (progress_bars ?g) n \<noteq> None"
    using wg assms(2) by (rule widgets_ready_has_bar)
  define a1 where "a1 =
      ?g\<lparr>generate_calls := generate_calls ?g @ [ctx @ requirements @ fb @ ''\<newline>                    ''],
          closing := closing ?g \<or> closing_during w i\<rparr>"
  have gs: "generate_section w i ?iv n t ?g = Inl (ExternalError cause, a1)"
    using c b assms(3) by (simp add: generate_section_def Let_def a1_def)
  have bar1: "map_of (progress_bars a1) n \<noteq> None" using barg by (simp add: a1_def)
  have w1: "widgets_ready a1" using wg by (simp add: a1_def widgets_ready_def)
  have row1: "section_row a1 k = section_row ?g k" for k by (simp add: a1_def section_row_def)
  let ?a' = "update_progress n ''Failed'' 0 a1"
  have "generate_sections w ?iv i ((n, t) # rest) a
          = Inl (PyException (''Error generating '' @ n @ '': '' @ cause), ?a')"
    using assms(4) gs by simp
  moreover have "widgets_ready ?a'" using w1 by (rule widgets_ready_update_progress)
  moreover have "\<forall>k. section_row ?a' k = (if k = n then (Some ''Failed'', Some 0) else section_row a k)"
    by (simp add: section_row_update_progress [OF bar1] row1 section_row_update_progress [OF bar])
  moreover have "run_frame a ?a'" by (simp add: run_frame_def a1_def)
  moreover have "length (generate_calls ?a') = Suc (length (generate_calls a))" by (simp add: a1_def)
  ultimately show ?thesis by blast
qed

subsection \<open>The loop over the sections\<close>

lemma generate_sections_closing: "closing a \<Longrightarrow> generate_sections w iv i ss a = Inr a"
  by (cases ss) auto

lemma completed_prefix:
  assumes "set pre \<subseteq> set sections" and "distinct (map fst pre)"
    and "widgets_ready a" and "\<not> closing a"
    and "\<forall>j<length pre. (\<exists>body. response w (i + j) = Inr body) \<and> \<not> closing_during w (i + j)"
  shows "\<exists>a'. generate_sections w [(''topic'', x), (''methodology'', m), (''results'', r)] i (pre @ post) a
             = generate_sections w [(''topic'', x), (''methodology'', m), (''results'', r)]
                 (i + length pre) post a'
           \<and> widgets_ready a' \<and> \<not> closing a'
           \<and> (\<forall>k. section_row a' k
                  = (if k \<in> fst ` set pre then (Some ''Complete'', Some 1) else section_row a k))
           \<and> run_frame a a'
           \<and> length (generate_calls a') = length (generate_calls a) + length pre
           \<and> (\<forall>k. k \<notin> fst ` set pre \<longrightarrow> citations a' k = citations a k)"
  using assms
proof (induction pre arbitrary: i a)
  case Nil
  then show ?case by auto
next
  case (Cons nt pre)
  obtain n t where nt: "nt = (n, t)" by (cases nt)
  let ?iv = "[(''topic'', x), (''methodology'', m), (''results'', r)]"
  from Cons.prems(5) obtain body where body: "response w i = Inr body" and nc: "\<not> closing_during w i"
    by force
  from Cons.prems(1) nt have mem: "(n, t) \<in> set sections" by simp
  from step_success [OF Cons.prems(3) mem body Cons.prems(4), of x m r "pre @ post"]
  obtain a1 where
    s1: "generate_sections w ?iv i ((n, t) # pre @ post) a = generate_sections w ?iv (Suc i) (pre @ post) a1"
    and w1: "widgets_ready a1"
    and r1: "\<forall>k. section_row a1 k = (if k = n then (Some ''Complete'', Some 1) else section_row a k)"
    and f1: "run_frame a a1"
    and l1: "length (generate_calls a1) = Suc (length (generate_calls a))"
    and c1: "closing a1 = closing_during w i"
    and k1: "\<forall>k. k \<noteq> n \<longrightarrow> citations a1 k = citations a k"
    by blast
  have p1: "set pre \<subseteq> set sections" using Cons.prems(1) by simp
  have p2: "distinct (map fst pre)" using Cons.prems(2) by simp
  have p4: "\<not> closing a1" using c1 nc by simp
  have p5: "\<forall>j<length pre. (\<exists>body. response w (Suc i + j) = Inr body) \<and> \<not> closing_during w (Suc i + j)"
  proof (intro allI impI)
    fix j assume "j < length pre"
    then have "Suc j < length (nt # pre)" by simp
    with Cons.prems(5) have "(\<exists>body. response w (i + Suc j) = Inr body) \<and> \<not> closing_during w (i + Suc j)"
      by blast
    then show "(\<exists>body. response w (Suc i + j) = Inr body) \<and> \<not> closing_during w (Suc i + j)"
      by simp
  qed
  from Cons.IH [OF p1 p2 w1 p4 p5]
  obtain a' where
    s2: "generate_sections w ?iv (Suc i) (pre @ post) a1 = generate_sections w ?iv (Suc i + length pre) post a'"
    and w2: "widgets_ready a'" and c2: "\<not> closing a'"
    and r2: "\<forall>k. section_row a' k = (if k \<in> fst ` set pre then (Some ''Complete'', Some 1) else section_row a1 k)"
    and f2: "run_frame a1 a'"
    and l2: "length (generate_calls a') = length (generate_calls a1) + length pre"
    and k2: "\<forall>k. k \<notin> fst ` set pre \<longrightarrow> citations a' k = citations a1 k"
    by blast
  have "generate_sections w ?iv i ((nt # pre) @ post) a
          = generate_sections w ?iv (i + length (nt # pre)) post a'"
    using s1 s2 nt by simp
  moreover have "\<forall>k. section_row a' k
       = (if k \<in> fst ` set (nt # pre) then (Some ''Complete'', Some 1) else section_row a k)"
    using r1 r2 nt by simp
  moreover have "run_frame a a'" using f1 f2 by (rule run_frame_trans)
  moreover have "length (generate_calls a') = length (generate_calls a) + length (nt # pre)"
    using l1 l2 by simp
  moreover have "\<forall>k. k \<notin> fst ` set (nt # pre) \<longrightarrow> citations a' k = citations a k"
    using k1 k2 nt by simp
  ultimately show ?case using w2 c2 by blast
qed

lemma distinct_section_names: "distinct (map fst sections)"
  by (simp add: sections_def)

lemma section_name_inj:
  "i < length sections \<Longrightarrow> j < length sections \<Longrightarrow> fst (sections ! i) = fst (sections ! j) \<Longrightarrow> i = j"
  using distinct_section_names nth_eq_iff_index_eq [of "map fst sections" i j] by simp

lemma section_name_in_take:
  assumes "j < length sections" "k \<le> length sections"
  shows "fst (sections ! j) \<in> fst ` set (take k sections) \<longleftrightarrow> j < k"
proof
  assume "fst (sections ! j) \<in> fst ` set (take k sections)"
  then obtain e where e: "e \<in> set (take k sections)" and fe: "fst e = fst (sections ! j)" by force
  from e obtain i where i: "i < length (take k sections)" and ei: "take k sections ! i = e"
    by (auto simp: in_set_conv_nth)
  from i assms(2) have ik: "i < k" by simp
  with ei have "sections ! i = e" by simp
  with fe have "fst (sections ! i) = fst (sections ! j)" by simp
  with ik assms have "i = j" using section_name_inj [of i j] by simp
  with ik show "j < k" by simp
next
  assume jk: "j < k"
  with assms have "take k sections ! j = sections ! j" "j < length (take k sections)" by simp_all
  then have "sections ! j \<in> set (take k sections)" by (metis nth_mem)
  then show "fst (sections ! j) \<in> fst ` set (take k sections)" by (rule imageI)
qed

lemma fold_update_progress_field:
  assumes "\<And>n b. f (update_progress n s p b) = f b"
  shows "f (fold (\<lambda>n. update_progress n s p) ks a) = f a"
  by (induction ks arbitrary: a) (simp_all add: assms)

lemma fold_update_progress_rows:
  "widgets_ready a \<Longrightarrow> set ks \<subseteq> set (map fst sections) \<Longrightarrow>
     widgets_ready (fold (\<lambda>n. update_progress n s p) ks a)
     \<and> (\<forall>k. section_row (fold (\<lambda>n. update_progress n s p) ks a) k
            = (if k \<in> set ks then (Some s, Some p) else section_row a k))"
proof (induction ks arbitrary: a)
  case Nil
  then show ?case by simp
next
  case (Cons n ks)
  from Cons.prems(2) obtain t where "(n, t) \<in> set sections" by auto
  with Cons.prems(1) have bar: "map_of (progress_bars a) n \<noteq> None" by (rule widgets_ready_has_bar)
  have w: "widgets_ready (update_progress n s p a)"
    using Cons.prems(1) by (rule widgets_ready_update_progress)
  from Cons.prems(2) have "set ks \<subseteq> set (map fst sections)" by simp
  from Cons.IH [OF w this] show ?case
    by (simp add: section_row_update_progress [OF bar])
qed

lemma validate_fields_cong:
  "(\<And>f. entry_text (inputs a f) = entry_text (inputs b f)) \<Longrightarrow> validate_fields a fs = validate_fields b fs"
  by (induction fs) simp_all

lemma start_generation_idle:
  assumes "widgets_ready a" and "current_task a = None"
  shows "widgets_ready (start_generation a)"
    and "\<And>n t. (n, t) \<in> set sections \<Longrightarrow> section_row (start_generation a) n = (Some ''Pending'', Some 0)"
    and "closing (start_generation a) = closing a"
    and "files (start_generation a) = files a"
    and "generate_calls (start_generation a) = generate_calls a"
    and "status_label (start_generation a) = (''Generating paper...'', Some ''white'')"
    and "validate_inputs (start_generation a) = validate_inputs a"
    and "current_task (start_generation a) = Some (threads_started a)"
    and "save_as_markdown (start_generation a) = save_as_markdown a"
    and "save_as_markdown_var (start_generation a) = save_as_markdown_var a"
    and "citations (start_generation a) = Map.empty"
    and "\<And>f. entry_text (inputs (start_generation a) f) = entry_text (inputs a f)"
proof -
  define a3 where "a3 = (update_status_label ''Generating paper...'' False (toggle_inputs False a))
      \<lparr>citations := Map.empty, section_texts := []\<rparr>"
  define a4 where "a4 = fold (\<lambda>section_name. update_progress section_name ''Pending'' 0)
      (map fst (progress_bars a3)) a3"
  have sg: "start_generation a = a4\<lparr>current_task := Some (threads_started a4),
      threads_started := Suc (threads_started a4)\<rparr>"
    using assms(2) by (simp add: start_generation_def Let_def a3_def a4_def)
  have w3: "widgets_ready a3" using assms(1) by (simp add: widgets_ready_def a3_def)
  have keys: "map fst (progress_bars a3) = map fst sections" using w3 by (simp add: widgets_ready_def)
  have sub: "set (map fst (progress_bars a3)) \<subseteq> set (map fst sections)" using keys by simp
  note rows = fold_update_progress_rows [OF w3 sub, of "''Pending''" 0, folded a4_def]
  show "widgets_ready (start_generation a)"
    using rows by (simp add: sg widgets_ready_def)
  show "section_row (start_generation a) n = (Some ''Pending'', Some 0)" if "(n, t) \<in> set sections" for n t
  proof -
    from that have "n \<in> set (map fst (progress_bars a3))" unfolding keys by force
    moreover have "section_row (start_generation a) n = section_row a4 n"
      by (simp add: sg section_row_def)
    ultimately show ?thesis using rows by simp
  qed
  show "closing (start_generation a) = closing a"
    by (simp add: sg a4_def fold_update_progress_field [where f = closing] a3_def)
  show "files (start_generation a) = files a"
    by (simp add: sg a4_def fold_update_progress_field [where f = files] a3_def)
  show "generate_calls (start_generation a) = generate_calls a"
    by (simp add: sg a4_def fold_update_progress_field [where f = generate_calls] a3_def)
  show "status_label (start_generation a) = (''Generating paper...'', Some ''white'')"
    by (simp add: sg a4_def fold_update_progress_field [where f = status_label] a3_def)
  show "save_as_markdown (start_generation a) = save_as_markdown a"
    by (simp add: sg a4_def fold_update_progress_field [where f = save_as_markdown] a3_def)
  show "save_as_markdown_var (start_generation a) = save_as_markdown_var a"
    by (simp add: sg a4_def fold_update_progress_field [where f = save_as_markdown_var] a3_def)
  show "current_task (start_generation a) = Some (threads_started a)"
    by (simp add: sg a4_def fold_update_progress_field [where f = threads_started] a3_def)
  show "citations (start_generation a) = Map.empty"
    by (simp add: sg a4_def fold_update_progress_field [where f = citations] a3_def)
  have "inputs (start_generation a) = inputs (toggle_inputs False a)"
    by (simp add: sg a4_def fold_update_progress_field [where f = inputs] a3_def)
  then show same_text: "entry_text (inputs (start_generation a) f) = entry_text (inputs a f)" for f
    by simp
  show "validate_inputs (start_generation a) = validate_inputs a"
    unfolding validate_inputs_def using same_text by (rule validate_fields_cong)
qed

subsection \<open>Failure and cancellation\<close>

lemma generate_paper_body_valid:
  assumes "fst (validate_inputs s)"
  shows "generate_paper_body w s =
     (case generate_sections w
             [(''topic'', entry_text (inputs s ''topic'')),
              (''methodology'', entry_text (inputs s ''methodology'')),
              (''results'', entry_text (inputs s ''results''))]
             0 sections (s\<lparr>api_key_configured := Some (entry_text (inputs s ''api_key''))\<rparr>) of
        Inl raised \<Rightarrow> Inl raised
      | Inr a2 \<Rightarrow>
          if \<not> closing a2
          then (case save_document (timestamp w) (section_texts a2) a2 of
                  Inl raised \<Rightarrow> Inl raised
                | Inr a3 \<Rightarrow>
                    Inr (update_status_label ''Research paper generated successfully!'' False a3))
          else Inr a2)"
proof (cases "validate_inputs s")
  case (Pair valid message)
  with assms have "valid" by simp
  with Pair show ?thesis by (simp add: generate_paper_body_def Let_def)
qed

lemma section_row_finally [simp]:
  "section_row ((toggle_inputs True b)\<lparr>current_task := None\<rparr>) n = section_row b n"
  "section_row (update_status_label msg e b) n = section_row b n"
  "section_row (b\<lparr>api_key_configured := v\<rparr>) n = section_row b n"
  by (simp_all add: section_row_def)

lemma section_names:
  "length sections = 6"
  "fst (sections ! 0) = ''Abstract''" "fst (sections ! 1) = ''Introduction''"
  "fst (sections ! Suc 0) = ''Introduction''"
  "fst (sections ! 2) = ''Methodology''" "fst (sections ! 3) = ''Results''"
  "fst (sections ! 4) = ''Discussion''" "fst (sections ! 5) = ''Conclusion''"
  by (simp_all add: sections_def)

lemma filled_form_ready:
  "widgets_ready filled_form" "current_task filled_form = None"
  "fst (validate_inputs filled_form)" "\<not> closing filled_form"
  by (simp_all add: widgets_ready_def filled_form_def setup_ui_def sections_def
        validate_inputs_def required_fields_def strip_def isspace_def)

text \<open>
  C2. A run is started from an idle application with valid inputs and the widgets of
  \<open>setup_ui\<close>. The generation calls of the first \<open>k\<close> sections return, the flag
  \<open>closing\<close> is not set before the call of section \<open>k\<close> (counted from 0), and that call
  raises with message \<open>cause\<close>. Then, when the run has ended, the first \<open>k\<close> sections show
  \<open>Complete\<close> and progress 1, section \<open>k\<close> shows \<open>Failed\<close> and progress 0, every later
  section shows \<open>Pending\<close> and progress 0, exactly \<open>k + 1\<close> generation calls were issued, no
  file was written, and the status label holds, as an error, the message that wraps the name
  of the failing section and the cause.
\<close>

theorem generation_failure_aborts_run:
  assumes "widgets_ready a" and "current_task a = None" and "fst (validate_inputs a)"
    and "k < length sections" and "\<not> closing a"
    and "\<forall>j<k. (\<exists>body. response w j = Inr body) \<and> \<not> closing_during w j"
    and "response w k = Inl cause"
  shows "let a' = generate_paper w (start_generation a) in
           (\<forall>j<k. section_row a' (fst (sections ! j)) = (Some ''Complete'', Some 1))
           \<and> section_row a' (fst (sections ! k)) = (Some ''Failed'', Some 0)
           \<and> (\<forall>j. k < j \<and> j < length sections
                  \<longrightarrow> section_row a' (fst (sections ! j)) = (Some ''Pending'', Some 0))
           \<and> length (generate_calls a') = length (generate_calls a) + Suc k
           \<and> files a' = files a
           \<and> status_label a'
               = (''Error: Error generating '' @ fst (sections ! k) @ '': '' @ cause, Some ''red'')"
proof -
  define s where "s = start_generation a"
  note st = start_generation_idle [OF assms(1,2), folded s_def]
  define a1 where "a1 = s\<lparr>api_key_configured := Some (entry_text (inputs s ''api_key''))\<rparr>"
  let ?iv = "[(''topic'', entry_text (inputs s ''topic'')),
              (''methodology'', entry_text (inputs s ''methodology'')),
              (''results'', entry_text (inputs s ''results''))]"
  have valid: "fst (validate_inputs s)" using assms(3) st(7) by simp
  have w1: "widgets_ready a1" using st(1) by (simp add: a1_def widgets_ready_def)
  have c1: "\<not> closing a1" using assms(5) st(3) by (simp add: a1_def)
  obtain n t where nt: "sections ! k = (n, t)" by (cases "sections ! k")
  have split: "sections = take k sections @ (n, t) # drop (Suc k) sections"
    using id_take_nth_drop [OF assms(4)] nt by simp
  have mem: "(n, t) \<in> set sections" using nth_mem [OF assms(4)] nt by simp
  have p1: "set (take k sections) \<subseteq> set sections" by (rule set_take_subset)
  have p2: "distinct (map fst (take k sections))"
    using distinct_section_names by (simp add: take_map [symmetric])
  have p5: "\<forall>j<length (take k sections).
              (\<exists>body. response w (0 + j) = Inr body) \<and> \<not> closing_during w (0 + j)"
    using assms(6) by simp
  have lk: "length (take k sections) = k" using assms(4) by simp
  from completed_prefix [OF p1 p2 w1 c1 p5, of "entry_text (inputs s ''topic'')"
      "entry_text (inputs s ''methodology'')" "entry_text (inputs s ''results'')"
      "(n, t) # drop (Suc k) sections", unfolded lk add_0]
  obtain a2 where
    s2: "generate_sections w ?iv 0 (take k sections @ (n, t) # drop (Suc k) sections) a1
           = generate_sections w ?iv k ((n, t) # drop (Suc k) sections) a2"
    and w2: "widgets_ready a2" and c2: "\<not> closing a2"
    and r2: "\<forall>m. section_row a2 m
               = (if m \<in> fst ` set (take k sections) then (Some ''Complete'', Some 1)
                  else section_row a1 m)"
    and f2: "run_frame a1 a2"
    and l2: "length (generate_calls a2) = length (generate_calls a1) + k"
    by blast
  from step_failure [OF w2 mem assms(7) c2, of "entry_text (inputs s ''topic'')"
      "entry_text (inputs s ''methodology'')" "entry_text (inputs s ''results'')"
      "drop (Suc k) sections"]
  obtain a3 where
    s3: "generate_sections w ?iv k ((n, t) # drop (Suc k) sections) a2
           = Inl (PyException (''Error generating '' @ n @ '': '' @ cause), a3)"
    and r3: "\<forall>m. section_row a3 m = (if m = n then (Some ''Failed'', Some 0) else section_row a2 m)"
    and f3: "run_frame a2 a3"
    and l3: "length (generate_calls a3) = Suc (length (generate_calls a2))"
    by blast
  have "generate_sections w ?iv 0 sections a1
          = generate_sections w ?iv 0 (take k sections @ (n, t) # drop (Suc k) sections) a1"
    using split by (rule arg_cong [where f = "\<lambda>ss. generate_sections w ?iv 0 ss a1"])
  with s2 s3 have loop: "generate_sections w ?iv 0 sections a1
                = Inl (PyException (''Error generating '' @ n @ '': '' @ cause), a3)"
    by (simp only:)
  define a' where "a' = generate_paper w s"
  have fin: "a' = (toggle_inputs True
                     (update_status_label (''Error: '' @ ''Error generating '' @ n @ '': '' @ cause)
                        True a3))\<lparr>current_task := None\<rparr>"
    unfolding a'_def generate_paper_def generate_paper_body_valid [OF valid] a1_def [symmetric] loop
    by (simp add: Let_def)
  have row: "section_row a' m = section_row a3 m" for m by (simp add: fin)
  have row1: "section_row a1 m = section_row s m" for m by (simp add: a1_def)
  have f13: "run_frame a1 a3" using f2 f3 by (rule run_frame_trans)
  have n_k: "n = fst (sections ! k)" using nt by simp
  have A: "\<forall>j<k. section_row a' (fst (sections ! j)) = (Some ''Complete'', Some 1)"
  proof (intro allI impI)
    fix j assume jk: "j < k"
    with assms(4) have jl: "j < length sections" by simp
    have "fst (sections ! j) \<noteq> n"
      using section_name_inj [OF jl assms(4)] jk n_k by auto
    moreover have "fst (sections ! j) \<in> fst ` set (take k sections)"
      using section_name_in_take [OF jl, of k] assms(4) jk by simp
    ultimately show "section_row a' (fst (sections ! j)) = (Some ''Complete'', Some 1)"
      using r2 r3 by (simp add: row)
  qed
  have B: "section_row a' (fst (sections ! k)) = (Some ''Failed'', Some 0)"
    using r3 n_k by (simp add: row)
  have C: "\<forall>j. k < j \<and> j < length sections
             \<longrightarrow> section_row a' (fst (sections ! j)) = (Some ''Pending'', Some 0)"
  proof (intro allI impI)
    fix j assume j: "k < j \<and> j < length sections"
    then have jl: "j < length sections" by simp
    have "fst (sections ! j) \<noteq> n"
      using section_name_inj [OF jl assms(4)] j n_k by auto
    moreover have "fst (sections ! j) \<notin> fst ` set (take k sections)"
      using section_name_in_take [OF jl, of k] assms(4) j by simp
    moreover have "section_row s (fst (sections ! j)) = (Some ''Pending'', Some 0)"
      using st(2) [of "fst (sections ! j)" "snd (sections ! j)"] nth_mem [OF jl] by simp
    ultimately show "section_row a' (fst (sections ! j)) = (Some ''Pending'', Some 0)"
      using r2 r3 by (simp add: row row1)
  qed
  have D: "length (generate_calls a') = length (generate_calls a) + Suc k"
    using l2 l3 st(5) by (simp add: fin a1_def)
  have E: "files a' = files a"
    using f13 st(4) by (simp add: fin run_frame_def a1_def)
  have F: "status_label a'
             = (''Error: Error generating '' @ fst (sections ! k) @ '': '' @ cause, Some ''red'')"
    by (simp add: fin n_k)
  from A B C D E F show ?thesis
    unfolding Let_def a'_def s_def by blast
qed

theorem generation_failure_aborts_run_witness:
  "let a' = generate_paper failing_world (start_generation filled_form) in
     section_row a' ''Abstract'' = (Some ''Complete'', Some 1)
     \<and> section_row a' ''Introduction'' = (Some ''Complete'', Some 1)
     \<and> section_row a' ''Methodology'' = (Some ''Failed'', Some 0)
     \<and> section_row a' ''Results'' = (Some ''Pending'', Some 0)
     \<and> section_row a' ''Discussion'' = (Some ''Pending'', Some 0)
     \<and> section_row a' ''Conclusion'' = (Some ''Pending'', Some 0)
     \<and> length (generate_calls a') = 3
     \<and> files a' = []
     \<and> status_label a' = (''Error: Error generating Methodology: quota exceeded'', Some ''red'')"
proof -
  define a' where "a' = generate_paper failing_world (start_generation filled_form)"
  have h4: "2 < length sections" by (simp add: section_names)
  have h6: "\<forall>j<2. (\<exists>body. response failing_world j = Inr body) \<and> \<not> closing_during failing_world j"
    by (simp add: failing_world_def)
  have h7: "response failing_world 2 = Inl ''quota exceeded''"
    by (simp add: failing_world_def)
  note T = generation_failure_aborts_run [OF filled_form_ready(1,2,3) h4 filled_form_ready(4) h6 h7,
      unfolded Let_def, folded a'_def]
  from T have completed: "\<forall>j<2. section_row a' (fst (sections ! j)) = (Some ''Complete'', Some 1)"
    by blast
  from T have pending: "\<forall>j. 2 < j \<and> j < length sections
      \<longrightarrow> section_row a' (fst (sections ! j)) = (Some ''Pending'', Some 0)"
    by blast
  have "section_row a' ''Abstract'' = (Some ''Complete'', Some 1)"
    using completed [rule_format, of 0] by (simp add: section_names)
  moreover have "section_row a' ''Introduction'' = (Some ''Complete'', Some 1)"
    using completed [rule_format, of 1] by (simp add: section_names)
  moreover have "section_row a' ''Methodology'' = (Some ''Failed'', Some 0)"
    using T by (simp add: section_names)
  moreover have "section_row a' ''Results'' = (Some ''Pending'', Some 0)"
    using pending [rule_format, of 3] by (simp add: section_names)
  moreover have "section_row a' ''Discussion'' = (Some ''Pending'', Some 0)"
    using pending [rule_format, of 4] by (simp add: section_names)
  moreover have "section_row a' ''Conclusion'' = (Some ''Pending'', Some 0)"
    using pending [rule_format, of 5] by (simp add: section_names)
  moreover have "length (generate_calls a') = 3"
    using T by (simp add: filled_form_def setup_ui_def)
  moreover have "files a' = []"
    using T by (simp add: filled_form_def setup_ui_def)
  moreover have "status_label a' = (''Error: Error generating Methodology: quota exceeded'', Some ''red'')"
    using T by (simp add: section_names)
  ultimately show ?thesis unfolding Let_def a'_def by blast
qed

text \<open>
  C3. A run is started from an idle application with valid inputs and the widgets of
  \<open>setup_ui\<close>. The generation calls of the first \<open>k\<close> sections return (\<open>k\<close> at least 1),
  and the flag \<open>closing\<close> is set while the \<open>k\<close>-th of them is being handled, during its call
  or during the pause after it, and not before. Then that section still completes, the run
  stops at the head of the loop for the next one: the first \<open>k\<close> sections show
  \<open>Complete\<close> and progress 1, every later section still shows \<open>Pending\<close> and progress 0
  (none is \<open>Failed\<close>), exactly \<open>k\<close> generation calls were issued, no file was written, and
  the status label still holds the message of the start, which is not an error.
\<close>

theorem cancellation_stops_at_boundary:
  assumes "widgets_ready a" and "current_task a = None" and "fst (validate_inputs a)"
    and "0 < k" and "k \<le> length sections" and "\<not> closing a"
    and "\<forall>j<k. \<exists>body. response w j = Inr body"
    and "\<forall>j. Suc j < k \<longrightarrow> \<not> closing_during w j"
    and "closing_during w (k - 1)"
  shows "let a' = generate_paper w (start_generation a) in
           (\<forall>j<k. section_row a' (fst (sections ! j)) = (Some ''Complete'', Some 1))
           \<and> (\<forall>j. k \<le> j \<and> j < length sections
                  \<longrightarrow> section_row a' (fst (sections ! j)) = (Some ''Pending'', Some 0))
           \<and> length (generate_calls a') = length (generate_calls a) + k
           \<and> files a' = files a
           \<and> status_label a' = (''Generating paper...'', Some ''white'')"
proof -
  define s where "s = start_generation a"
  note st = start_generation_idle [OF assms(1,2), folded s_def]
  define a1 where "a1 = s\<lparr>api_key_configured := Some (entry_text (inputs s ''api_key''))\<rparr>"
  let ?iv = "[(''topic'', entry_text (inputs s ''topic'')),
              (''methodology'', entry_text (inputs s ''methodology'')),
              (''results'', entry_text (inputs s ''results''))]"
  define q where "q = k - 1"
  have kq: "k = Suc q" using assms(4) by (simp add: q_def)
  have ql: "q < length sections" using assms(5) kq by simp
  have valid: "fst (validate_inputs s)" using assms(3) st(7) by simp
  have w1: "widgets_ready a1" using st(1) by (simp add: a1_def widgets_ready_def)
  have c1: "\<not> closing a1" using assms(6) st(3) by (simp add: a1_def)
  obtain n t where nt: "sections ! q = (n, t)" by (cases "sections ! q")
  have split: "sections = take q sections @ (n, t) # drop k sections"
    using id_take_nth_drop [OF ql] nt kq by simp
  have mem: "(n, t) \<in> set sections" using nth_mem [OF ql] nt by simp
  have p1: "set (take q sections) \<subseteq> set sections" by (rule set_take_subset)
  have p2: "distinct (map fst (take q sections))"
    using distinct_section_names by (simp add: take_map [symmetric])
  have p5: "\<forall>j<length (take q sections).
              (\<exists>body. response w (0 + j) = Inr body) \<and> \<not> closing_during w (0 + j)"
    using assms(7,8) kq by simp
  have lq: "length (take q sections) = q" using ql by simp
  from completed_prefix [OF p1 p2 w1 c1 p5, of "entry_text (inputs s ''topic'')"
      "entry_text (inputs s ''methodology'')" "entry_text (inputs s ''results'')"
      "(n, t) # drop k sections", unfolded lq add_0]
  obtain a2 where
    s2: "generate_sections w ?iv 0 (take q sections @ (n, t) # drop k sections) a1
           = generate_sections w ?iv q ((n, t) # drop k sections) a2"
    and w2: "widgets_ready a2" and c2: "\<not> closing a2"
    and r2: "\<forall>m. section_row a2 m
               = (if m \<in> fst ` set (take q sections) then (Some ''Complete'', Some 1)
                  else section_row a1 m)"
    and f2: "run_frame a1 a2"
    and l2: "length (generate_calls a2) = length (generate_calls a1) + q"
    by blast
  from assms(7) kq obtain body where body: "response w q = Inr body" by auto
  from step_success [OF w2 mem body c2, of "entry_text (inputs s ''topic'')"
      "entry_text (inputs s ''methodology'')" "entry_text (inputs s ''results'')"
      "drop k sections"]
  obtain a3 where
    s3: "generate_sections w ?iv q ((n, t) # drop k sections) a2
           = generate_sections w ?iv (Suc q) (drop k sections) a3"
    and r3: "\<forall>m. section_row a3 m = (if m = n then (Some ''Complete'', Some 1) else section_row a2 m)"
    and f3: "run_frame a2 a3"
    and l3: "length (generate_calls a3) = Suc (length (generate_calls a2))"
    and c3: "closing a3 = closing_during w q"
    by blast
  have cl3: "closing a3" using c3 assms(9) by (simp add: q_def)
  have "generate_sections w ?iv 0 sections a1
          = generate_sections w ?iv 0 (take q sections @ (n, t) # drop k sections) a1"
    using split by (rule arg_cong [where f = "\<lambda>ss. generate_sections w ?iv 0 ss a1"])
  with s2 s3 generate_sections_closing [OF cl3, of w ?iv "Suc q" "drop k sections"]
  have loop: "generate_sections w ?iv 0 sections a1 = Inr a3"
    by (simp only:)
  define a' where "a' = generate_paper w s"
  have fin: "a' = (toggle_inputs True a3)\<lparr>current_task := None\<rparr>"
    unfolding a'_def generate_paper_def generate_paper_body_valid [OF valid] a1_def [symmetric] loop
    using cl3 by (simp add: Let_def)
  have row: "section_row a' m = section_row a3 m" for m by (simp add: fin)
  have row1: "section_row a1 m = section_row s m" for m by (simp add: a1_def)
  have f13: "run_frame a1 a3" using f2 f3 by (rule run_frame_trans)
  have n_q: "n = fst (sections ! q)" using nt by simp
  have A: "\<forall>j<k. section_row a' (fst (sections ! j)) = (Some ''Complete'', Some 1)"
  proof (intro allI impI)
    fix j assume jk: "j < k"
    with assms(5) have jl: "j < length sections" by simp
    show "section_row a' (fst (sections ! j)) = (Some ''Complete'', Some 1)"
    proof (cases "j = q")
      case True
      then show ?thesis using r3 n_q by (simp add: row)
    next
      case False
      with jk kq have "j < q" by simp
      then have "fst (sections ! j) \<in> fst ` set (take q sections)"
        using section_name_in_take [OF jl, of q] ql by simp
      then show ?thesis using r2 r3 by (simp add: row)
    qed
  qed
  have C: "\<forall>j. k \<le> j \<and> j < length sections
             \<longrightarrow> section_row a' (fst (sections ! j)) = (Some ''Pending'', Some 0)"
  proof (intro allI impI)
    fix j assume j: "k \<le> j \<and> j < length sections"
    then have jl: "j < length sections" by simp
    have "fst (sections ! j) \<noteq> n"
      using section_name_inj [OF jl ql] j n_q kq by auto
    moreover have "fst (sections ! j) \<notin> fst ` set (take q sections)"
      using section_name_in_take [OF jl, of q] ql j kq by simp
    moreover have "section_row s (fst (sections ! j)) = (Some ''Pending'', Some 0)"
      using st(2) [of "fst (sections ! j)" "snd (sections ! j)"] nth_mem [OF jl] by simp
    ultimately show "section_row a' (fst (sections ! j)) = (Some ''Pending'', Some 0)"
      using r2 r3 by (simp add: row row1)
  qed
  have D: "length (generate_calls a') = length (generate_calls a) + k"
    using l2 l3 st(5) kq by (simp add: fin a1_def)
  have E: "files a' = files a"
    using f13 st(4) by (simp add: fin run_frame_def a1_def)
  have F: "status_label a' = (''Generating paper...'', Some ''white'')"
    using f13 st(6) by (simp add: fin run_frame_def a1_def)
  from A C D E F show ?thesis
    unfolding Let_def a'_def s_def by blast
qed

theorem cancellation_stops_at_boundary_witness:
  "let a' = generate_paper closing_world (start_generation filled_form) in
     section_row a' ''Abstract'' = (Some ''Complete'', Some 1)
     \<and> section_row a' ''Introduction'' = (Some ''Complete'', Some 1)
     \<and> section_row a' ''Methodology'' = (Some ''Pending'', Some 0)
     \<and> section_row a' ''Results'' = (Some ''Pending'', Some 0)
     \<and> section_row a' ''Discussion'' = (Some ''Pending'', Some 0)
     \<and> section_row a' ''Conclusion'' = (Some ''Pending'', Some 0)
     \<and> length (generate_calls a') = 2
     \<and> files a' = []
     \<and> status_label a' = (''Generating paper...'', Some ''white'')"
proof -
  define a' where "a' = generate_paper closing_world (start_generation filled_form)"
  have h4: "0 < (2::nat)" by simp
  have h5: "2 \<le> length sections" by (simp add: section_names)
  have h7: "\<forall>j<2. \<exists>body. response closing_world j = Inr body"
    by (simp add: closing_world_def)
  have h8: "\<forall>j. Suc j < 2 \<longrightarrow> \<not> closing_during closing_world j"
    by (simp add: closing_world_def)
  have h9: "closing_during closing_world (2 - 1)"
    by (simp add: closing_world_def)
  note T = cancellation_stops_at_boundary [OF filled_form_ready(1,2,3) h4 h5 filled_form_ready(4)
      h7 h8 h9, unfolded Let_def, folded a'_def]
  from T have completed: "\<forall>j<2. section_row a' (fst (sections ! j)) = (Some ''Complete'', Some 1)"
    by blast
  from T have pending: "\<forall>j. 2 \<le> j \<and> j < length sections
      \<longrightarrow> section_row a' (fst (sections ! j)) = (Some ''Pending'', Some 0)"
    by blast
  have "section_row a' ''Abstract'' = (Some ''Complete'', Some 1)"
    using completed [rule_format, of 0] by (simp add: section_names)
  moreover have "section_row a' ''Introduction'' = (Some ''Complete'', Some 1)"
    using completed [rule_format, of 1] by (simp add: section_names)
  moreover have "section_row a' ''Methodology'' = (Some ''Pending'', Some 0)"
    using pending [rule_format, of 2] by (simp add: section_names)
  moreover have "section_row a' ''Results'' = (Some ''Pending'', Some 0)"
    using pending [rule_format, of 3] by (simp add: section_names)
  moreover have "section_row a' ''Discussion'' = (Some ''Pending'', Some 0)"
    using pending [rule_format, of 4] by (simp add: section_names)
  moreover have "section_row a' ''Conclusion'' = (Some ''Pending'', Some 0)"
    using pending [rule_format, of 5] by (simp add: section_names)
  moreover have "length (generate_calls a') = 2"
    using T by (simp add: filled_form_def setup_ui_def)
  moreover have "files a' = []"
    using T by (simp add: filled_form_def setup_ui_def)
  moreover have "status_label a' = (''Generating paper...'', Some ''white'')"
    using T by simp
  ultimately show ?thesis unfolding Let_def a'_def by blast
qed


subsection \<open>What a run leaves untouched\<close>

lemma state_after_simps [simp]:
  "state_after (Inl (e, a)) = a" "state_after (Inr a) = a"
  by (simp_all add: state_after_def)

lemma generate_section_effects:
  "run_frame a (state_after (generate_section w i iv n t a))"
  "\<exists>ps. generate_calls (state_after (generate_section w i iv n t a)) = generate_calls a @ ps"
  "k \<noteq> n \<Longrightarrow> citations (state_after (generate_section w i iv n t a)) k = citations a k"
  by (simp_all add: generate_section_def Let_def run_frame_def extract_citations_def
        split: sum.splits)

lemma run_frame_update_progress: "run_frame a (update_progress n s p a)"
  by (simp add: run_frame_def)

lemma generate_sections_effects:
  "run_frame a (state_after (generate_sections w iv i ss a))
   \<and> (\<exists>ps. generate_calls (state_after (generate_sections w iv i ss a)) = generate_calls a @ ps)
   \<and> (\<forall>k. k \<notin> fst ` set ss
          \<longrightarrow> citations (state_after (generate_sections w iv i ss a)) k = citations a k)"
proof (induction ss arbitrary: i a)
  case Nil
  then show ?case by simp
next
  case (Cons nt ss)
  obtain n t where nt: "nt = (n, t)" by (cases nt)
  let ?g = "update_progress n ''Generating...'' (1 / 2) a"
  let ?r = "generate_section w i iv n t ?g"
  have fr: "run_frame a (state_after ?r)"
    using run_frame_update_progress generate_section_effects(1) by (rule run_frame_trans)
  obtain ps where ps: "generate_calls (state_after ?r) = generate_calls a @ ps"
    using generate_section_effects(2) [where a = ?g and w = w and i = i and iv = iv and n = n and t = t]
    by auto
  have ct: "k \<noteq> n \<Longrightarrow> citations (state_after ?r) k = citations a k" for k
    using generate_section_effects(3) [where a = ?g and w = w and i = i and iv = iv and n = n and t = t and k = k]
    by simp
  show ?case
  proof (cases "closing a")
    case True
    then show ?thesis by (simp add: nt)
  next
    case False
    show ?thesis
    proof (cases ?r)
      case (Inl raised)
      obtain e a' where raised: "raised = (e, a')" by (cases raised)
      with Inl have sa: "state_after ?r = a'" by simp
      have res: "state_after (generate_sections w iv i (nt # ss) a) = update_progress n ''Failed'' 0 a'"
        using False Inl raised by (simp add: nt)
      have "run_frame a (update_progress n ''Failed'' 0 a')"
        using fr [unfolded sa] run_frame_update_progress by (rule run_frame_trans)
      moreover have "generate_calls (update_progress n ''Failed'' 0 a') = generate_calls a @ ps"
        using ps sa by simp
      moreover have "\<forall>k. k \<notin> fst ` set (nt # ss)
          \<longrightarrow> citations (update_progress n ''Failed'' 0 a') k = citations a k"
        using ct sa nt by simp
      ultimately show ?thesis unfolding res by blast
    next
      case (Inr a')
      then have sa: "state_after ?r = a'" by simp
      have res: "generate_sections w iv i (nt # ss) a = generate_sections w iv (Suc i) ss a'"
        using False Inr by (simp add: nt)
      let ?f = "state_after (generate_sections w iv (Suc i) ss a')"
      from Cons.IH [where i = "Suc i" and a = a'] obtain qs where
        f2: "run_frame a' ?f" and c2: "generate_calls ?f = generate_calls a' @ qs"
        and k2: "\<forall>k. k \<notin> fst ` set ss \<longrightarrow> citations ?f k = citations a' k"
        by blast
      have "run_frame a ?f" using fr [unfolded sa] f2 by (rule run_frame_trans)
      moreover have "generate_calls ?f = generate_calls a @ (ps @ qs)"
        using c2 ps sa by simp
      moreover have "\<forall>k. k \<notin> fst ` set (nt # ss) \<longrightarrow> citations ?f k = citations a k"
        using k2 ct sa nt by simp
      ultimately show ?thesis unfolding res by blast
    qed
  qed
qed

lemma save_document_effects:
  "generate_calls (state_after (save_document now texts a)) = generate_calls a"
  "citations (state_after (save_document now texts a)) = citations a"
  "save_as_markdown a \<Longrightarrow> save_as_markdown (state_after (save_document now texts a))"
  by (simp_all add: save_document_def Let_def split: sum.splits option.splits)


subsection \<open>Citations and contexts\<close>

lemma save_document_result:
  "save_document now texts a = Inl (e, a') \<Longrightarrow>
     generate_calls a' = generate_calls a \<and> citations a' = citations a"
  "save_document now texts a = Inr a' \<Longrightarrow>
     generate_calls a' = generate_calls a \<and> citations a' = citations a"
  using save_document_effects(1,2) [of now texts a] by simp_all

lemma generate_paper_after_loop:
  assumes "fst (validate_inputs s)"
  shows "generate_calls (generate_paper w s)
           = generate_calls (state_after (generate_sections w
               [(''topic'', entry_text (inputs s ''topic'')),
                (''methodology'', entry_text (inputs s ''methodology'')),
                (''results'', entry_text (inputs s ''results''))]
               0 sections (s\<lparr>api_key_configured := Some (entry_text (inputs s ''api_key''))\<rparr>)))"
    and "citations (generate_paper w s)
           = citations (state_after (generate_sections w
               [(''topic'', entry_text (inputs s ''topic'')),
                (''methodology'', entry_text (inputs s ''methodology'')),
                (''results'', entry_text (inputs s ''results''))]
               0 sections (s\<lparr>api_key_configured := Some (entry_text (inputs s ''api_key''))\<rparr>)))"
  unfolding generate_paper_def generate_paper_body_valid [OF assms]
  by (auto simp: Let_def split: sum.splits dest: save_document_result)

lemma build_context_absent_key:
  "cm n = None \<Longrightarrow> build_context n iv (Some cm) = build_context n iv None"
  by (simp add: build_context_def)

lemma step_prompt:
  assumes "(n, t) \<in> set sections" and "\<not> closing a"
  shows "\<exists>ctx fb ps.
           build_context n [(''topic'', x), (''methodology'', m), (''results'', r)] (Some (citations a))
             = Inr ctx
           \<and> py_format t [(''topic'', x), (''methodology'', m), (''results'', r)] = Inr fb
           \<and> generate_calls (state_after (generate_sections w
                 [(''topic'', x), (''methodology'', m), (''results'', r)] i ((n, t) # rest) a))
               = generate_calls a @ [ctx @ requirements @ fb @ ''\<newline>                    ''] @ ps"
proof -
  let ?iv = "[(''topic'', x), (''methodology'', m), (''results'', r)]"
  let ?g = "update_progress n ''Generating...'' (1 / 2) a"
  obtain ctx where c: "build_context n ?iv (Some (citations a)) = Inr ctx"
    using build_context_returns [OF assms(1)] by blast
  obtain fb where b: "py_format t ?iv = Inr fb"
    using prompt_template_formats [OF assms(1)] by blast
  let ?p = "ctx @ requirements @ fb @ ''\<newline>                    ''"
  have "\<exists>ps. generate_calls (state_after (generate_sections w ?iv i ((n, t) # rest) a))
               = generate_calls a @ [?p] @ ps"
  proof (cases "response w i")
    case (Inl cause)
    then show ?thesis
      using assms(2) c b by (simp add: generate_section_def Let_def)
  next
    case (Inr body)
    define a3 where "a3 = update_progress n ''Complete'' 1
      ((extract_citations body n
         (?g\<lparr>generate_calls := generate_calls ?g @ [?p],
             closing := closing ?g \<or> closing_during w i\<rparr>))
       \<lparr>section_texts := dict_set (section_texts a) n body\<rparr>)"
    have gs: "generate_section w i ?iv n t ?g = Inr a3"
      using c b Inr by (simp add: generate_section_def Let_def a3_def)
    have res: "generate_sections w ?iv i ((n, t) # rest) a = generate_sections w ?iv (Suc i) rest a3"
      using assms(2) gs by simp
    obtain qs where "generate_calls (state_after (generate_sections w ?iv (Suc i) rest a3))
        = generate_calls a3 @ qs"
      using generate_sections_effects [where a = a3 and w = w and iv = ?iv and i = "Suc i" and ss = rest]
      by blast
    moreover have "generate_calls a3 = generate_calls a @ [?p]" by (simp add: a3_def)
    ultimately show ?thesis unfolding res by simp
  qed
  with c b show ?thesis by blast
qed

lemma section_name_not_later:
  assumes "k < length sections"
  shows "fst (sections ! k) \<notin> fst ` set (drop (Suc k) sections)"
proof
  assume "fst (sections ! k) \<in> fst ` set (drop (Suc k) sections)"
  then obtain e where e: "e \<in> set (drop (Suc k) sections)" and fe: "fst e = fst (sections ! k)"
    by force
  from e obtain i where i: "i < length (drop (Suc k) sections)" and ei: "drop (Suc k) sections ! i = e"
    by (auto simp: in_set_conv_nth)
  from i have il: "Suc k + i < length sections" by simp
  with ei have "sections ! (Suc k + i) = e" by simp
  with fe have "fst (sections ! (Suc k + i)) = fst (sections ! k)" by simp
  with il assms have "Suc k + i = k" by (rule section_name_inj)
  then show False by simp
qed

lemma section_prompt_without_citations:
  assumes "widgets_ready a" and "current_task a = None" and "fst (validate_inputs a)"
    and "\<not> closing a" and "k < length sections"
    and "\<forall>j<k. (\<exists>body. response w j = Inr body) \<and> \<not> closing_during w j"
  shows "\<exists>ctx fb.
           build_context (fst (sections ! k))
               [(''topic'', entry_text (inputs a ''topic'')),
                (''methodology'', entry_text (inputs a ''methodology'')),
                (''results'', entry_text (inputs a ''results''))] None = Inr ctx
           \<and> py_format (snd (sections ! k))
               [(''topic'', entry_text (inputs a ''topic'')),
                (''methodology'', entry_text (inputs a ''methodology'')),
                (''results'', entry_text (inputs a ''results''))] = Inr fb
           \<and> generate_calls (generate_paper w (start_generation a)) ! (length (generate_calls a) + k)
               = ctx @ requirements @ fb @ ''\<newline>                    ''"
proof -
  define s where "s = start_generation a"
  note st = start_generation_idle [OF assms(1,2), folded s_def]
  define a1 where "a1 = s\<lparr>api_key_configured := Some (entry_text (inputs s ''api_key''))\<rparr>"
  let ?iv = "[(''topic'', entry_text (inputs a ''topic'')),
              (''methodology'', entry_text (inputs a ''methodology'')),
              (''results'', entry_text (inputs a ''results''))]"
  have valid: "fst (validate_inputs s)" using assms(3) st(7) by simp
  have a1': "s\<lparr>api_key_configured := Some (entry_text (inputs a ''api_key''))\<rparr> = a1"
    by (simp add: a1_def st(12))
  have w1: "widgets_ready a1" using st(1) by (simp add: a1_def widgets_ready_def)
  have c1: "\<not> closing a1" using assms(4) st(3) by (simp add: a1_def)
  obtain n t where nt: "sections ! k = (n, t)" by (cases "sections ! k")
  have split: "sections = take k sections @ (n, t) # drop (Suc k) sections"
    using id_take_nth_drop [OF assms(5)] nt by simp
  have mem: "(n, t) \<in> set sections" using nth_mem [OF assms(5)] nt by simp
  have p1: "set (take k sections) \<subseteq> set sections" by (rule set_take_subset)
  have p2: "distinct (map fst (take k sections))"
    using distinct_section_names by (simp add: take_map [symmetric])
  have p5: "\<forall>j<length (take k sections).
              (\<exists>body. response w (0 + j) = Inr body) \<and> \<not> closing_during w (0 + j)"
    using assms(6) by simp
  have lk: "length (take k sections) = k" using assms(5) by simp
  from completed_prefix [OF p1 p2 w1 c1 p5, of "entry_text (inputs a ''topic'')"
      "entry_text (inputs a ''methodology'')" "entry_text (inputs a ''results'')"
      "(n, t) # drop (Suc k) sections", unfolded lk add_0]
  obtain a2 where
    s2: "generate_sections w ?iv 0 (take k sections @ (n, t) # drop (Suc k) sections) a1
           = generate_sections w ?iv k ((n, t) # drop (Suc k) sections) a2"
    and c2: "\<not> closing a2"
    and l2: "length (generate_calls a2) = length (generate_calls a1) + k"
    and k2: "\<forall>m. m \<notin> fst ` set (take k sections) \<longrightarrow> citations a2 m = citations a1 m"
    by blast
  have "generate_sections w ?iv 0 sections a1
          = generate_sections w ?iv 0 (take k sections @ (n, t) # drop (Suc k) sections) a1"
    using split by (rule arg_cong [where f = "\<lambda>ss. generate_sections w ?iv 0 ss a1"])
  with s2 have loop: "generate_sections w ?iv 0 sections a1
      = generate_sections w ?iv k ((n, t) # drop (Suc k) sections) a2"
    by (simp only:)
  have "n \<notin> fst ` set (take k sections)"
    using section_name_in_take [OF assms(5), of k] assms(5) nt by simp
  with k2 have "citations a2 n = None" using st(11) by (simp add: a1_def)
  then have bc: "build_context n ?iv (Some (citations a2)) = build_context n ?iv None"
    by (rule build_context_absent_key)
  from step_prompt [OF mem c2, of "entry_text (inputs a ''topic'')"
      "entry_text (inputs a ''methodology'')" "entry_text (inputs a ''results'')" w k
      "drop (Suc k) sections"]
  obtain ctx fb ps where
    ctx: "build_context n ?iv (Some (citations a2)) = Inr ctx"
    and fb: "py_format t ?iv = Inr fb"
    and calls: "generate_calls (state_after (generate_sections w ?iv k ((n, t) # drop (Suc k) sections) a2))
        = generate_calls a2 @ [ctx @ requirements @ fb @ ''\<newline>                    ''] @ ps"
    by blast
  have "generate_calls (generate_paper w s)
      = generate_calls a2 @ [ctx @ requirements @ fb @ ''\<newline>                    ''] @ ps"
    using generate_paper_after_loop(1) [OF valid, of w] calls loop
    by (simp add: st(12) a1')
  moreover have "length (generate_calls a2) = length (generate_calls a) + k"
    using l2 st(5) by (simp add: a1_def)
  ultimately have "generate_calls (generate_paper w s) ! (length (generate_calls a) + k)
      = ctx @ requirements @ fb @ ''\<newline>                    ''"
    by (simp add: nth_append)
  with ctx fb bc nt show ?thesis unfolding s_def by simp
qed

lemma section_citations_stored:
  assumes "widgets_ready a" and "current_task a = None" and "fst (validate_inputs a)"
    and "\<not> closing a" and "k < length sections"
    and "\<forall>j<k. (\<exists>body. response w j = Inr body) \<and> \<not> closing_during w j"
    and "response w k = Inr body" and "findall_parenthesized body \<noteq> []"
  shows "citations (generate_paper w (start_generation a)) (fst (sections ! k))
           = Some (map (\<lambda>(i, citation). (''citation_'' @ str_nat i, citation))
                     (enumerate_from 0 (findall_parenthesized body)))"
proof -
  define s where "s = start_generation a"
  note st = start_generation_idle [OF assms(1,2), folded s_def]
  define a1 where "a1 = s\<lparr>api_key_configured := Some (entry_text (inputs s ''api_key''))\<rparr>"
  let ?iv = "[(''topic'', entry_text (inputs a ''topic'')),
              (''methodology'', entry_text (inputs a ''methodology'')),
              (''results'', entry_text (inputs a ''results''))]"
  have valid: "fst (validate_inputs s)" using assms(3) st(7) by simp
  have a1': "s\<lparr>api_key_configured := Some (entry_text (inputs a ''api_key''))\<rparr> = a1"
    by (simp add: a1_def st(12))
  have w1: "widgets_ready a1" using st(1) by (simp add: a1_def widgets_ready_def)
  have c1: "\<not> closing a1" using assms(4) st(3) by (simp add: a1_def)
  obtain n t where nt: "sections ! k = (n, t)" by (cases "sections ! k")
  have split: "sections = take k sections @ (n, t) # drop (Suc k) sections"
    using id_take_nth_drop [OF assms(5)] nt by simp
  have mem: "(n, t) \<in> set sections" using nth_mem [OF assms(5)] nt by simp
  have p1: "set (take k sections) \<subseteq> set sections" by (rule set_take_subset)
  have p2: "distinct (map fst (take k sections))"
    using distinct_section_names by (simp add: take_map [symmetric])
  have p5: "\<forall>j<length (take k sections).
              (\<exists>body. response w (0 + j) = Inr body) \<and> \<not> closing_during w (0 + j)"
    using assms(6) by simp
  have lk: "length (take k sections) = k" using assms(5) by simp
  from completed_prefix [OF p1 p2 w1 c1 p5, of "entry_text (inputs a ''topic'')"
      "entry_text (inputs a ''methodology'')" "entry_text (inputs a ''results'')"
      "(n, t) # drop (Suc k) sections", unfolded lk add_0]
  obtain a2 where
    s2: "generate_sections w ?iv 0 (take k sections @ (n, t) # drop (Suc k) sections) a1
           = generate_sections w ?iv k ((n, t) # drop (Suc k) sections) a2"
    and w2: "widgets_ready a2" and c2: "\<not> closing a2"
    by blast
  from step_success [OF w2 mem assms(7) c2, of "entry_text (inputs a ''topic'')"
      "entry_text (inputs a ''methodology'')" "entry_text (inputs a ''results'')"
      "drop (Suc k) sections"]
  obtain a3 where
    s3: "generate_sections w ?iv k ((n, t) # drop (Suc k) sections) a2
           = generate_sections w ?iv (Suc k) (drop (Suc k) sections) a3"
    and k3: "citations a3 n
               = (if findall_parenthesized body = [] then citations a2 n
                  else Some (map (\<lambda>(i, citation). (''citation_'' @ str_nat i, citation))
                               (enumerate_from 0 (findall_parenthesized body))))"
    by blast
  have "generate_sections w ?iv 0 sections a1
          = generate_sections w ?iv 0 (take k sections @ (n, t) # drop (Suc k) sections) a1"
    using split by (rule arg_cong [where f = "\<lambda>ss. generate_sections w ?iv 0 ss a1"])
  with s2 s3 have loop: "generate_sections w ?iv 0 sections a1
      = generate_sections w ?iv (Suc k) (drop (Suc k) sections) a3"
    by (simp only:)
  have "n \<notin> fst ` set (drop (Suc k) sections)"
    using section_name_not_later [OF assms(5)] nt by simp
  then have "citations (state_after (generate_sections w ?iv (Suc k) (drop (Suc k) sections) a3)) n
      = citations a3 n"
    using generate_sections_effects [where a = a3 and w = w and iv = ?iv and i = "Suc k"
        and ss = "drop (Suc k) sections"]
    by blast
  then have "citations (generate_paper w s) n = citations a3 n"
    using generate_paper_after_loop(2) [OF valid, of w] loop
    by (simp add: st(12) a1')
  with k3 assms(8) nt show ?thesis unfolding s_def by simp
qed

text \<open>
  C1. The claim is that the context of every section after the first contains the
  comma-joined citations extracted from the sections generated before it. The run below
  evaluates the program where it does not: every entry holds \<open>x\<close> and every response is
  \<^verbatim>\<open>Prior work exists (Smith, 2020).\<close> When the run has ended, the citation of the
  Abstract is stored under \<open>Abstract\<close>, and the prompt sent for the Introduction begins
  with a context whose citation field is empty. \<open>build_context\<close> looks the citations up
  under the name of the section it builds the context for, and that section's citations are
  extracted only after its prompt was sent (lemma \<open>section_prompt_without_citations\<close>
  gives the same for every section of every run).
\<close>

theorem citations_missing_from_context:
  "let a' = generate_paper citing_world (start_generation filled_form) in
     citations a' ''Abstract'' = Some [(''citation_0'', ''Smith, 2020'')]
     \<and> generate_calls a' ! 1 =
         ''Previously in the Abstract, we established the research focus on x \<newline>            using x which yielded x. Include relevant citations: .''
         @ requirements
         @ ''Write a comprehensive introduction for a research paper on x. Include the study's significance, relevant background, existing research gaps, and how this study addresses them. Use an engaging and academic tone.''
         @ ''\<newline>                    ''"
proof -
  define a' where "a' = generate_paper citing_world (start_generation filled_form)"
  have r: "\<forall>j<k. (\<exists>body. response citing_world j = Inr body) \<and> \<not> closing_during citing_world j" for k
    by (simp add: citing_world_def)
  have r0: "response citing_world 0 = Inr ''Prior work exists (Smith, 2020).''"
    by (simp add: citing_world_def)
  have f: "findall_parenthesized ''Prior work exists (Smith, 2020).'' = [''Smith, 2020'']"
    by simp
  have l0: "0 < length sections" and l1: "1 < length sections" by (simp_all add: section_names)
  have "citations a' ''Abstract'' = Some [(''citation_0'', ''Smith, 2020'')]"
    using section_citations_stored [OF filled_form_ready(1,2,3,4) l0 r r0]
    by (simp add: f a'_def section_names str_nat.simps digit_char_def)
  moreover
  have iv: "entry_text (inputs filled_form field) = ''x''" for field
    by (simp add: filled_form_def)
  have s1: "sections ! 1 = (''Introduction'', ''Write a comprehensive introduction for a research paper on {topic}. Include the study's significance, relevant background, existing research gaps, and how this study addresses them. Use an engaging and academic tone.'')"
    by (simp add: sections_def)
  have bc: "build_context ''Introduction'' [(''topic'', ''x''), (''methodology'', ''x''), (''results'', ''x'')] None
      = Inr ''Previously in the Abstract, we established the research focus on x \<newline>            using x which yielded x. Include relevant citations: .''"
    unfolding build_context_def Let_def
    by (simp add: dict_get_def contexts_def py_format_def)
  have pf: "py_format ''Write a comprehensive introduction for a research paper on {topic}. Include the study's significance, relevant background, existing research gaps, and how this study addresses them. Use an engaging and academic tone.''
       [(''topic'', ''x''), (''methodology'', ''x''), (''results'', ''x'')]
      = Inr ''Write a comprehensive introduction for a research paper on x. Include the study's significance, relevant background, existing research gaps, and how this study addresses them. Use an engaging and academic tone.''"
    by (simp add: py_format_def)
  have "generate_calls a' ! 1 =
         ''Previously in the Abstract, we established the research focus on x \<newline>            using x which yielded x. Include relevant citations: .''
         @ requirements
         @ ''Write a comprehensive introduction for a research paper on x. Include the study's significance, relevant background, existing research gaps, and how this study addresses them. Use an engaging and academic tone.''
         @ ''\<newline>                    ''"
    using section_prompt_without_citations [OF filled_form_ready(1,2,3,4) l1 r]
    unfolding iv s1 fst_conv snd_conv bc pf a'_def [symmetric]
    by (simp add: filled_form_def setup_ui_def)
  ultimately show ?thesis unfolding Let_def a'_def by blast
qed


section \<open>Saving and validation\<close>

lemma start_generation_keeps_flag:
  "save_as_markdown (start_generation a) = save_as_markdown a"
  by (simp add: start_generation_def Let_def fold_update_progress_field [where f = save_as_markdown])

lemma generate_paper_keeps_flag:
  assumes "save_as_markdown a"
  shows "save_as_markdown (generate_paper w a)"
proof (cases "validate_inputs a")
  case (Pair valid message)
  show ?thesis
  proof (cases valid)
    case False
    with Pair assms show ?thesis
      by (simp add: generate_paper_def generate_paper_body_def)
  next
    case True
    define a1 where "a1 = a\<lparr>api_key_configured := Some (entry_text (inputs a ''api_key''))\<rparr>"
    let ?iv = "[(''topic'', entry_text (inputs a ''topic'')),
                (''methodology'', entry_text (inputs a ''methodology'')),
                (''results'', entry_text (inputs a ''results''))]"
    let ?r = "generate_sections w ?iv 0 sections a1"
    have "run_frame a1 (state_after ?r)"
      using generate_sections_effects [where a = a1 and w = w and iv = ?iv and i = 0 and ss = sections]
      by blast
    with assms have flag: "save_as_markdown (state_after ?r)"
      by (simp add: run_frame_def a1_def)
    from True Pair have valid: "fst (validate_inputs a)" by simp
    show ?thesis
    proof (cases ?r)
      case (Inl raised)
      obtain e a2 where "raised = (e, a2)" by (cases raised)
      with Inl flag show ?thesis
        unfolding generate_paper_def generate_paper_body_valid [OF valid] a1_def [symmetric]
        by (simp add: Let_def)
    next
      case (Inr a2)
      with flag have f2: "save_as_markdown a2" by simp
      show ?thesis
      proof (cases "save_document (timestamp w) (section_texts a2) a2")
        case (Inl raised)
        obtain e a3 where "raised = (e, a3)" by (cases raised)
        with Inl Inr f2 save_document_effects(3) [OF f2, of "timestamp w" "section_texts a2"]
        show ?thesis
          unfolding generate_paper_def generate_paper_body_valid [OF valid] a1_def [symmetric]
          by (simp add: Let_def)
      next
        case (Inr a3)
        with \<open>?r = Inr a2\<close> f2 save_document_effects(3) [OF f2, of "timestamp w" "section_texts a2"]
        show ?thesis
          unfolding generate_paper_def generate_paper_body_valid [OF valid] a1_def [symmetric]
          by (simp add: Let_def)
      qed
    qed
  qed
qed

lemma document_loop_accepts:
  "\<forall>(n, t) \<in> set texts. xml_compatible n \<and> xml_compatible t \<Longrightarrow>
     document_loop texts doc
       = Inr (doc @ concat (map (\<lambda>(n, t). [Heading n 1, Paragraph t, Paragraph '''']) texts))"
  by (induction texts doc rule: document_loop.induct) simp_all

lemma document_loop_rejects:
  "\<not> (\<forall>(n, t) \<in> set texts. xml_compatible n \<and> xml_compatible t) \<Longrightarrow>
     document_loop texts doc = Inl xml_error"
  by (induction texts doc rule: document_loop.induct) auto

text \<open>A section name or a text that the document library refuses: \<open>save_document\<close>
  raises and leaves the application as it was, with no file written.\<close>

lemma save_document_rejects_control_characters:
  "\<not> (\<forall>(n, t) \<in> set texts. xml_compatible n \<and> xml_compatible t) \<Longrightarrow>
     save_document now texts a = Inl (xml_error, a)"
  by (simp add: save_document_def document_loop_rejects)

text \<open>
  C10. The section names and the texts are such that the document can be built (none has a
  NUL byte or a control character). \<open>save_document\<close> sets the flag \<open>save_as_markdown\<close>
  when the checkbox is checked, and then returns; once the flag is set, neither
  \<open>save_document\<close> nor \<open>start_generation\<close> nor \<open>generate_paper\<close> resets it; and a call of
  \<open>save_document\<close> with the flag set and the checkbox unchecked raises for the unbound
  local variable \<open>filename_md\<close>, after the Word file has been written and without an update
  of the status label.
\<close>

theorem save_document_stale_markdown_flag:
  assumes "\<forall>(n, t) \<in> set texts. xml_compatible n \<and> xml_compatible t"
  shows "(save_as_markdown_var a \<longrightarrow>
            (\<exists>a'. save_document now texts a = Inr a' \<and> save_as_markdown a'))
         \<and> (save_as_markdown a \<longrightarrow>
              save_as_markdown (state_after (save_document now texts a))
              \<and> save_as_markdown (start_generation a)
              \<and> save_as_markdown (generate_paper w a))
         \<and> (save_as_markdown a \<and> \<not> save_as_markdown_var a \<longrightarrow>
              save_document now texts a
                = Inl (UnboundLocalError ''filename_md'',
                       a\<lparr>files := files a
                            @ [(''research_paper_'' @ now @ ''.docx'',
                                Docx (concat (map (\<lambda>(n, t). [Heading n 1, Paragraph t, Paragraph ''''])
                                                texts)))]\<rparr>))"
proof (intro conjI impI)
  note doc = document_loop_accepts [OF assms, of "[]"]
  {
    assume "save_as_markdown_var a"
    then show "\<exists>a'. save_document now texts a = Inr a' \<and> save_as_markdown a'"
      by (simp add: save_document_def doc Let_def update_status_label_def)
  }
  {
    assume "save_as_markdown a"
    then show "save_as_markdown (state_after (save_document now texts a))"
      by (rule save_document_effects(3))
  }
  {
    assume "save_as_markdown a"
    then show "save_as_markdown (start_generation a)"
      by (simp add: start_generation_keeps_flag)
  }
  {
    assume "save_as_markdown a"
    then show "save_as_markdown (generate_paper w a)"
      by (rule generate_paper_keeps_flag)
  }
  {
    assume "save_as_markdown a \<and> \<not> save_as_markdown_var a"
    then show "save_document now texts a
            = Inl (UnboundLocalError ''filename_md'',
                   a\<lparr>files := files a
                        @ [(''research_paper_'' @ now @ ''.docx'',
                            Docx (concat (map (\<lambda>(n, t). [Heading n 1, Paragraph t, Paragraph ''''])
                                            texts)))]\<rparr>)"
      by (simp add: save_document_def doc Let_def)
  }
qed

theorem save_document_stale_markdown_flag_witness:
  "(\<exists>a'. save_document ''20240101_120000'' [(''Abstract'', ''text'')]
            (setup_ui\<lparr>save_as_markdown_var := True\<rparr>) = Inr a' \<and> save_as_markdown a')
   \<and> save_document ''20240102_090000'' [(''Abstract'', ''text'')]
         (setup_ui\<lparr>save_as_markdown := True\<rparr>)
       = Inl (UnboundLocalError ''filename_md'',
              setup_ui\<lparr>save_as_markdown := True,
                files := [(''research_paper_20240102_090000.docx'',
                           Docx [Heading ''Abstract'' 1, Paragraph ''text'', Paragraph ''''])]\<rparr>)"
proof -
  have h0: "\<forall>(n, t) \<in> set [(''Abstract'', ''text'')]. xml_compatible n \<and> xml_compatible t"
    by (simp add: xml_compatible_def xml_char_def)
  have h1: "save_as_markdown_var (setup_ui\<lparr>save_as_markdown_var := True\<rparr>)" by simp
  have h2: "save_as_markdown (setup_ui\<lparr>save_as_markdown := True\<rparr>)
            \<and> \<not> save_as_markdown_var (setup_ui\<lparr>save_as_markdown := True\<rparr>)"
    by (simp add: setup_ui_def)
  have "\<exists>a'. save_document ''20240101_120000'' [(''Abstract'', ''text'')]
            (setup_ui\<lparr>save_as_markdown_var := True\<rparr>) = Inr a' \<and> save_as_markdown a'"
    using save_document_stale_markdown_flag [OF h0,
        of "setup_ui\<lparr>save_as_markdown_var := True\<rparr>" "''20240101_120000''" closing_world] h1
    by blast
  moreover have "save_document ''20240102_090000'' [(''Abstract'', ''text'')]
         (setup_ui\<lparr>save_as_markdown := True\<rparr>)
       = Inl (UnboundLocalError ''filename_md'',
              setup_ui\<lparr>save_as_markdown := True,
                files := [(''research_paper_20240102_090000.docx'',
                           Docx [Heading ''Abstract'' 1, Paragraph ''text'', Paragraph ''''])]\<rparr>)"
    using save_document_stale_markdown_flag [OF h0,
        of "setup_ui\<lparr>save_as_markdown := True\<rparr>" "''20240102_090000''" closing_world] h2
    by (simp add: setup_ui_def)
  ultimately show ?thesis by blast
qed

lemma validate_fields_find:
  "validate_fields a fs =
     (case find (\<lambda>field. strip (entry_text (inputs a field)) = '''') fs of
        None \<Rightarrow> (True, '''')
      | Some field \<Rightarrow> (False, title field @ '' is required''))"
  by (induction fs) simp_all

text \<open>
  C5, as the code has it. \<open>start_generation\<close> does not validate: it takes the handle
  \<open>current_task\<close> and the worker validates. When one of the four required entries is
  blank after stripping,
  the run that is started from an idle application holds the handle while it validates, and
  when it has ended the status label holds, as an error, the title-cased name of the first
  blank field followed by \<open>is required\<close>, no generation call was issued, no file was
  written, every section shows \<open>Pending\<close> and progress 0, and the handle is released.
\<close>

theorem blank_input_is_reported:
  assumes "widgets_ready a" and "current_task a = None"
    and "find (\<lambda>field. strip (entry_text (inputs a field)) = '''') required_fields = Some field"
  shows "current_task (start_generation a) \<noteq> None
         \<and> (let a' = generate_paper w (start_generation a) in
              status_label a' = (title field @ '' is required'', Some ''red'')
              \<and> generate_calls a' = generate_calls a
              \<and> files a' = files a
              \<and> (\<forall>(n, t) \<in> set sections. section_row a' n = (Some ''Pending'', Some 0))
              \<and> current_task a' = None)"
proof -
  define s where "s = start_generation a"
  note st = start_generation_idle [OF assms(1,2), folded s_def]
  have "validate_inputs a = (False, title field @ '' is required'')"
    using assms(3) by (simp add: validate_inputs_def validate_fields_find)
  then have "validate_inputs s = (False, title field @ '' is required'')"
    by (simp add: st(7))
  then have fin: "generate_paper w s
      = (toggle_inputs True (update_status_label (title field @ '' is required'') True s))
          \<lparr>current_task := None\<rparr>"
    by (simp add: generate_paper_def generate_paper_body_def)
  have "current_task s \<noteq> None" using st(8) by simp
  moreover have "status_label (generate_paper w s) = (title field @ '' is required'', Some ''red'')"
    by (simp add: fin)
  moreover have "generate_calls (generate_paper w s) = generate_calls a"
    by (simp add: fin st(5))
  moreover have "files (generate_paper w s) = files a"
    by (simp add: fin st(4))
  moreover have "\<forall>(n, t) \<in> set sections. section_row (generate_paper w s) n = (Some ''Pending'', Some 0)"
    using st(2) by (auto simp: fin)
  moreover have "current_task (generate_paper w s) = None"
    by (simp add: fin)
  ultimately show ?thesis unfolding Let_def s_def by blast
qed

lemma setup_ui_ready: "widgets_ready setup_ui" "current_task setup_ui = None"
  by (simp_all add: widgets_ready_def setup_ui_def sections_def)

theorem blank_input_is_reported_witness:
  "current_task (start_generation setup_ui) \<noteq> None
   \<and> (let a' = generate_paper closing_world (start_generation setup_ui) in
        status_label a' = (''Api_Key is required'', Some ''red'')
        \<and> generate_calls a' = []
        \<and> files a' = []
        \<and> section_row a' ''Abstract'' = (Some ''Pending'', Some 0)
        \<and> current_task a' = None)"
proof -
  have h: "find (\<lambda>field. strip (entry_text (inputs setup_ui field)) = '''') required_fields
      = Some ''api_key''"
    by (simp add: required_fields_def setup_ui_def strip_def)
  have t: "title ''api_key'' = ''Api_Key''"
    by (simp add: title_def is_cased_def to_upper_def to_lower_def ascii_lowercase_def
        ascii_uppercase_def)
  have m: "(''Abstract'', snd (sections ! 0)) \<in> set sections"
    by (simp add: sections_def)
  define a' where "a' = generate_paper closing_world (start_generation setup_ui)"
  note T = blank_input_is_reported [OF setup_ui_ready h, of closing_world,
      unfolded Let_def t, folded a'_def]
  from T have "\<forall>(n, t) \<in> set sections. section_row a' n = (Some ''Pending'', Some 0)"
    by blast
  from bspec [OF this m] have "section_row a' ''Abstract'' = (Some ''Pending'', Some 0)"
    by simp
  moreover from T have "generate_calls a' = []" and "files a' = []"
    by (simp_all add: setup_ui_def)
  ultimately show ?thesis using T unfolding Let_def a'_def by simp
qed

text \<open>
  C5 as stated fails where it says that the run never becomes the running one: with every
  entry empty the inputs are invalid, and the start request still takes the handle.
\<close>

theorem blank_input_starts_run_counterexample:
  "\<not> (\<not> fst (validate_inputs setup_ui) \<longrightarrow> current_task (start_generation setup_ui) = None)"
  by (simp add: validate_inputs_def required_fields_def setup_ui_def strip_def
      start_generation_def Let_def)

end
